theory Spec2Isabelle
  imports Main "HOL-Library.Sublist" "HOL-Library.Word"
begin

section \<open>git-credential-azure-cli: the credential helper of main.go\<close>

text \<open>
  A shallow embedding of \<^verbatim>\<open>main.go\<close>. Go strings are byte sequences, so a Go
  \<^verbatim>\<open>string\<close> is a \<^typ>\<open>string\<close> (a list of 8-bit characters). Functions of
  the Go standard library that the program calls are written out on bytes; where a
  library function consults Unicode tables on non-ASCII input, or belongs to an
  external package (git configuration, the Azure identity client), that part is a
  parameter of the model.
\<close>

subsection \<open>Package \<^verbatim>\<open>strings\<close>\<close>

text \<open>
  The Unicode-aware slow paths of \<^verbatim>\<open>strings.ToLower\<close> and
  \<^verbatim>\<open>strings.TrimSpace\<close>, which the library enters at the first byte
  \<open>\<ge> 0x80\<close> (\<^verbatim>\<open>utf8.RuneSelf\<close>):
  \<^item> \<open>MapToLower s\<close> is \<^verbatim>\<open>strings.Map(unicode.ToLower, s)\<close>;
  \<^item> \<open>TrimFuncIsSpace s\<close> is \<^verbatim>\<open>strings.TrimFunc(s, unicode.IsSpace)\<close>;
  \<^item> \<open>TrimRightFuncIsSpace s\<close> is \<^verbatim>\<open>strings.TrimRightFunc(s, unicode.IsSpace)\<close>.
\<close>

record unicode =
  MapToLower :: "string \<Rightarrow> string"
  TrimFuncIsSpace :: "string \<Rightarrow> string"
  TrimRightFuncIsSpace :: "string \<Rightarrow> string"

definition RuneSelf :: nat where
  "RuneSelf = 128"

definition isASCII :: "string \<Rightarrow> bool" where
  "isASCII s = list_all (\<lambda>c. of_char c < RuneSelf) s"

text \<open>The byte-wise branch of \<^verbatim>\<open>ToLower\<close>: \<^verbatim>\<open>'A' <= c && c <= 'Z'\<close> gives \<^verbatim>\<open>c + 'a' - 'A'\<close>.\<close>

definition lowerByte :: "char \<Rightarrow> char" where
  "lowerByte c =
     (if (65::nat) \<le> of_char c \<and> of_char c \<le> (90::nat)
      then char_of (of_char c + (32::nat)) else c)"

definition ToLower :: "unicode \<Rightarrow> string \<Rightarrow> string" where
  "ToLower U s = (if isASCII s then map lowerByte s else MapToLower U s)"

definition HasPrefix :: "string \<Rightarrow> string \<Rightarrow> bool" where
  "HasPrefix s p = (length p \<le> length s \<and> take (length p) s = p)"

definition HasSuffix :: "string \<Rightarrow> string \<Rightarrow> bool" where
  "HasSuffix s x =
     (length x \<le> length s \<and> drop (length s - length x) s = x)"

definition TrimPrefix :: "string \<Rightarrow> string \<Rightarrow> string" where
  "TrimPrefix s p = (if HasPrefix s p then drop (length p) s else s)"

definition TrimSuffix :: "string \<Rightarrow> string \<Rightarrow> string" where
  "TrimSuffix s x = (if HasSuffix s x then take (length s - length x) s else s)"

text \<open>\<^verbatim>\<open>strings.Index\<close>: the index of the first occurrence, or \<open>-1\<close>.\<close>

fun Index :: "string \<Rightarrow> string \<Rightarrow> int" where
  "Index [] sub = (if sub = [] then 0 else - 1)"
| "Index (c # s) sub =
     (if HasPrefix (c # s) sub then 0
      else (let i = Index s sub in if i = - 1 then - 1 else i + 1))"

text \<open>
  \<^verbatim>\<open>strings.TrimSpace\<close>. The table \<^verbatim>\<open>asciiSpace\<close> holds tab, newline,
  vertical tab, form feed, carriage return and space.
\<close>

definition asciiSpace :: "char \<Rightarrow> bool" where
  "asciiSpace c = (of_char c \<in> {9::nat, 10, 11, 12, 13, 32})"

text \<open>
  The first loop of \<^verbatim>\<open>TrimSpace\<close>: \<open>Inl r\<close> when a non-ASCII byte was met
  and the library returned \<^verbatim>\<open>TrimFunc(s[start:], unicode.IsSpace)\<close>, else
  \<open>Inr\<close> of \<^verbatim>\<open>s[start:]\<close>.
\<close>

fun trimLeft :: "unicode \<Rightarrow> string \<Rightarrow> string + string" where
  "trimLeft U [] = Inr []"
| "trimLeft U (c # s) =
     (if of_char c \<ge> RuneSelf then Inl (TrimFuncIsSpace U (c # s))
      else if \<not> asciiSpace c then Inr (c # s)
      else trimLeft U s)"

text \<open>The second loop, on \<^verbatim>\<open>s[start:stop]\<close> read from its end.\<close>

fun trimRight :: "unicode \<Rightarrow> string \<Rightarrow> string" where
  "trimRight U [] = []"
| "trimRight U (c # r) =
     (if of_char c \<ge> RuneSelf then TrimRightFuncIsSpace U (rev (c # r))
      else if \<not> asciiSpace c then rev (c # r)
      else trimRight U r)"

definition TrimSpace :: "unicode \<Rightarrow> string \<Rightarrow> string" where
  "TrimSpace U s =
     (case trimLeft U s of
        Inl r \<Rightarrow> r
      | Inr t \<Rightarrow> trimRight U (rev t))"

subsection \<open>The domain matcher\<close>

text \<open>
  \<^verbatim>\<open>isAllowedHost\<close>: the host is lower-cased once, then the domains are tried in
  order; the loop returns at the first domain that matches.
\<close>

fun isAllowedHost_loop :: "unicode \<Rightarrow> string \<Rightarrow> string list \<Rightarrow> bool" where
  "isAllowedHost_loop U host [] = False"
| "isAllowedHost_loop U host (d # ds) =
     (let domain = ToLower U d in
      if host = domain \<or> HasSuffix host (''.'' @ domain) then True
      else isAllowedHost_loop U host ds)"

definition isAllowedHost :: "unicode \<Rightarrow> string \<Rightarrow> string list \<Rightarrow> bool" where
  "isAllowedHost U host allowedDomains =
     isAllowedHost_loop U (ToLower U host) allowedDomains"

subsection \<open>Package \<^verbatim>\<open>fmt\<close> and the process's streams\<close>

definition digit :: "int \<Rightarrow> char" where
  "digit i = char_of (48 + i)"

text \<open>The decimal digits of an integer that is not negative.\<close>

function decimal :: "int \<Rightarrow> string" where
  "decimal i = (if i < 10 then [digit i] else decimal (i div 10) @ [digit (i mod 10)])"
  by pat_completeness auto
termination
  by (relation "measure nat") auto

declare decimal.simps [simp del]

text \<open>The verb \<^verbatim>\<open>%d\<close> on an integer.\<close>

definition fmt_d :: "int \<Rightarrow> string" where
  "fmt_d i = (if i < 0 then ''-'' @ decimal (- i) else decimal i)"

text \<open>The verb \<^verbatim>\<open>%v\<close> on a \<^verbatim>\<open>[]string\<close>: the elements between brackets, separated by spaces.\<close>

fun joinSpace :: "string list \<Rightarrow> string" where
  "joinSpace [] = []"
| "joinSpace [x] = x"
| "joinSpace (x # y # ys) = x @ '' '' @ joinSpace (y # ys)"

definition fmt_v :: "string list \<Rightarrow> string" where
  "fmt_v xs = ''['' @ joinSpace xs @ '']''"

definition nl :: string where
  "nl = [CHR 0x0A]"

text \<open>
  An \<^verbatim>\<open>azcore.AccessToken\<close>. Of its \<^verbatim>\<open>ExpiresOn\<close> (a \<^verbatim>\<open>time.Time\<close>) the
  program reads \<^verbatim>\<open>Unix()\<close>, an \<^verbatim>\<open>int64\<close>, and its \<^verbatim>\<open>%v\<close> rendering.
\<close>

type_synonym int64 = "64 word"

record Time =
  Unix :: int64
  Format_v :: string

record AccessToken =
  Token :: string
  ExpiresOn :: Time

text \<open>
  What the process has done so far: the bytes written to standard output and to standard
  error, and its calls into \<^verbatim>\<open>azidentity\<close> with what they returned, in order:
  \<^item> \<open>NewCredential opts err\<close>: \<^verbatim>\<open>NewAzureCLICredential\<close> was called with the tenant
    \<open>opts\<close> (\<open>None\<close> for nil options) and returned the error \<open>err\<close> (\<open>None\<close> for
    nil, together with a credential);
  \<^item> \<open>GetToken scope r\<close>: the credential's \<^verbatim>\<open>GetToken\<close> was called with the one
    scope \<open>scope\<close> and returned \<open>r\<close>, an error or a token.

  A Go \<^verbatim>\<open>error\<close> is represented by its message (\<^verbatim>\<open>Error()\<close>). The list of
  calls is not a variable of the program: it records what the program did, so that
  properties of its calls can be stated.
\<close>

datatype event =
    NewCredential "string option" "string option"
  | GetToken string "string + AccessToken"

record world =
  stdout :: string
  stderr :: string
  calls :: "event list"

definition Println :: "string \<Rightarrow> world \<Rightarrow> world" where
  "Println s w = w\<lparr>stdout := stdout w @ s @ nl\<rparr>"

definition Printf :: "string \<Rightarrow> world \<Rightarrow> world" where
  "Printf s w = w\<lparr>stdout := stdout w @ s\<rparr>"

text \<open>
  \<^verbatim>\<open>debugf\<close>; \<open>verbosity\<close> is the package variable that the \<^verbatim>\<open>-v\<close> flags
  count up, and \<open>msg\<close> is the format with its arguments filled in.
\<close>

definition debugf :: "int \<Rightarrow> int \<Rightarrow> string \<Rightarrow> world \<Rightarrow> world" where
  "debugf verbosity level msg w =
     (if verbosity \<ge> level then w\<lparr>stderr := stderr w @ ''[DEBUG] '' @ msg @ nl\<rparr> else w)"

subsection \<open>Configuration\<close>

text \<open>
  The loaded \<^verbatim>\<open>gitconfig.Configs\<close> (package \<^verbatim>\<open>github.com/gopasspw/gitconfig\<close>),
  given by the three methods that \<^verbatim>\<open>loadConfig\<close> calls on it.
\<close>

record gitconfig =
  cfg_GetAll :: "string \<Rightarrow> string list"
  cfg_List :: "string \<Rightarrow> string list"
  cfg_Get :: "string \<Rightarrow> string"

text \<open>
  The cached configuration: the package variables that \<^verbatim>\<open>loadConfig\<close> assigns.
  (\<^verbatim>\<open>resourceOverrides\<close> is a fresh map that receives every entry of
  \<^verbatim>\<open>defaultResourceOverrides\<close>, which has none.)
\<close>

record globals =
  allowedDomains :: "string list"
  resourceOverrides :: "string \<rightharpoonup> string"
  tenantOverrides :: "string \<rightharpoonup> string"

text \<open>Their values when the process starts: a nil slice and nil maps.\<close>

definition initial_globals :: globals where
  "initial_globals =
     \<lparr>allowedDomains = [], resourceOverrides = Map.empty, tenantOverrides = Map.empty\<rparr>"

definition defaultAllowedDomains :: "string list" where
  "defaultAllowedDomains = [''visualstudio.com'', ''dev.azure.com'']"

definition defaultResourceOverrides :: "string \<rightharpoonup> string" where
  "defaultResourceOverrides = Map.empty"

text \<open>The loop over the configured domains: trim, and append what is not empty.\<close>

fun loadDomains :: "unicode \<Rightarrow> string list \<Rightarrow> string list \<Rightarrow> string list" where
  "loadDomains U [] acc = acc"
| "loadDomains U (d0 # ds) acc =
     (let d = TrimSpace U d0 in
      if d \<noteq> '''' then loadDomains U ds (acc @ [d]) else loadDomains U ds acc)"

definition cfgPrefix :: string where
  "cfgPrefix = ''azureclicredentialhelper.''"

definition resourceSuffix :: string where
  "resourceSuffix = ''.resource''"

definition tenantSuffix :: string where
  "tenantSuffix = ''.tenant''"

text \<open>One round of the loop over \<^verbatim>\<open>gitCfg.List(prefix)\<close>.\<close>

definition loadOverride ::
    "int \<Rightarrow> gitconfig \<Rightarrow> string \<Rightarrow> globals \<times> world \<Rightarrow> globals \<times> world" where
  "loadOverride verbosity git key gw =
     (let (g, w) = gw in
      if HasSuffix key resourceSuffix then
        (let urlPart = TrimPrefix key cfgPrefix;
             urlPart = TrimSuffix urlPart resourceSuffix in
         if urlPart \<noteq> '''' then
           (let resource = cfg_Get git key in
            if resource \<noteq> '''' then
              (g\<lparr>resourceOverrides := (resourceOverrides g)(urlPart \<mapsto> resource)\<rparr>,
               debugf verbosity 2
                 (''Loaded resource override: '' @ urlPart @ '' -> '' @ resource) w)
            else (g, w))
         else (g, w))
      else if HasSuffix key tenantSuffix then
        (let urlPart = TrimPrefix key cfgPrefix;
             urlPart = TrimSuffix urlPart tenantSuffix in
         if urlPart \<noteq> '''' then
           (let tenant = cfg_Get git key in
            if tenant \<noteq> '''' then
              (g\<lparr>tenantOverrides := (tenantOverrides g)(urlPart \<mapsto> tenant)\<rparr>,
               debugf verbosity 2
                 (''Loaded tenant override: '' @ urlPart @ '' -> '' @ tenant) w)
            else (g, w))
         else (g, w))
      else (g, w))"

fun loadOverrides ::
    "int \<Rightarrow> gitconfig \<Rightarrow> string list \<Rightarrow> globals \<times> world \<Rightarrow> globals \<times> world" where
  "loadOverrides verbosity git [] gw = gw"
| "loadOverrides verbosity git (key # keys) gw =
     loadOverrides verbosity git keys (loadOverride verbosity git key gw)"

definition loadConfig ::
    "int \<Rightarrow> unicode \<Rightarrow> gitconfig \<Rightarrow> globals \<Rightarrow> world \<Rightarrow> globals \<times> world" where
  "loadConfig verbosity U git g w =
     (let w = debugf verbosity 2 ''Loading git configuration'' w;
          domains = cfg_GetAll git ''azureclicredentialhelper.alloweddomain'';
          (g, w) =
            (if length domains = 0 then
               (let g = g\<lparr>allowedDomains := defaultAllowedDomains\<rparr> in
                (g, debugf verbosity 2
                      (''Using default allowed domains: '' @ fmt_v (allowedDomains g)) w))
             else
               (let g = g\<lparr>allowedDomains := loadDomains U domains (allowedDomains g)\<rparr>;
                    g = (if length (allowedDomains g) = 0
                         then g\<lparr>allowedDomains := defaultAllowedDomains\<rparr> else g) in
                (g, debugf verbosity 2
                      (''Loaded allowed domains from config: '' @ fmt_v (allowedDomains g)) w)));
          g = g\<lparr>resourceOverrides := defaultResourceOverrides\<rparr>;
          g = g\<lparr>tenantOverrides := Map.empty\<rparr>
      in loadOverrides verbosity git (cfg_List git cfgPrefix) (g, w))"

subsection \<open>The override resolver\<close>

text \<open>\<^verbatim>\<open>fmt.Sprintf("%s://%s", protocol, host)\<close>\<close>

definition urlOf :: "string \<Rightarrow> string \<Rightarrow> string" where
  "urlOf protocol host = protocol @ ''://'' @ host"

definition getResourceForHost :: "globals \<Rightarrow> string \<Rightarrow> string \<Rightarrow> string" where
  "getResourceForHost g protocol host =
     (let url = urlOf protocol host in
      case resourceOverrides g url of
        Some resource \<Rightarrow> resource
      | None \<Rightarrow>
          (case resourceOverrides g host of
             Some resource \<Rightarrow> resource
           | None \<Rightarrow> url @ ''/''))"

definition getTenantForHost :: "globals \<Rightarrow> string \<Rightarrow> string \<Rightarrow> string" where
  "getTenantForHost g protocol host =
     (let url = urlOf protocol host in
      case tenantOverrides g url of
        Some tenant \<Rightarrow> tenant
      | None \<Rightarrow>
          (case tenantOverrides g host of
             Some tenant \<Rightarrow> tenant
           | None \<Rightarrow> ''''))"

subsection \<open>Package \<^verbatim>\<open>bufio\<close>: the scanner on standard input\<close>

text \<open>
  \<^verbatim>\<open>bufio.NewScanner(os.Stdin)\<close> splits with \<^verbatim>\<open>ScanLines\<close> and keeps the default
  limit \<^verbatim>\<open>MaxScanTokenSize\<close> on its buffer. \<^verbatim>\<open>ScanLines\<close> gives the bytes before
  the next newline, or at the end of the input what is left when that is not empty, in
  both cases without one trailing carriage return (\<^verbatim>\<open>dropCR\<close>).
\<close>

definition MaxScanTokenSize :: nat where
  "MaxScanTokenSize = 64 * 1024"

definition newline :: char where
  "newline = CHR 0x0A"

definition dropCR :: "string \<Rightarrow> string" where
  "dropCR data = (if data \<noteq> [] \<and> last data = CHR 0x0D then butlast data else data)"

text \<open>
  \<open>scanLines input\<close> is the sequence of \<^verbatim>\<open>scanner.Text()\<close> over the successful calls
  of \<^verbatim>\<open>scanner.Scan()\<close>, for the bytes \<open>input\<close> that standard input holds up to its
  end. \<^verbatim>\<open>Scan\<close> reads into its buffer until the split function finds a token. The
  buffer grows up to \<^verbatim>\<open>MaxScanTokenSize\<close> bytes; when it holds that many bytes of
  one line and no newline among them, \<^verbatim>\<open>Scan\<close> sets \<^verbatim>\<open>ErrTooLong\<close> and returns
  false, before it reads on, be the line the last one or not. So a line of
  \<^verbatim>\<open>MaxScanTokenSize\<close> bytes or more (its line end not counted) ends the sequence, as
  the end of the input does; \<^verbatim>\<open>parseInput\<close> does not look at \<^verbatim>\<open>scanner.Err()\<close>.
\<close>

function scanLines :: "string \<Rightarrow> string list" where
  "scanLines input =
     (if input = [] then []
      else
        (let line = takeWhile (\<lambda>c. c \<noteq> newline) input;
             rest = dropWhile (\<lambda>c. c \<noteq> newline) input in
         if MaxScanTokenSize \<le> length line then []
         else if rest = [] then [dropCR line]
         else dropCR line # scanLines (tl rest)))"
  by pat_completeness auto
termination
proof (relation "measure length")
  show "wf (measure length)"
    by simp
next
  fix input :: string and line rest
  assume "input \<noteq> []" and "rest = dropWhile (\<lambda>c. c \<noteq> newline) input" and "rest \<noteq> []"
  then have "length (tl rest) < length rest" and "length rest \<le> length input"
    by (simp_all add: length_dropWhile_le)
  then show "(tl rest, input) \<in> measure length"
    by simp
qed

declare scanLines.simps [simp del]

subsection \<open>The request parser\<close>

text \<open>
  \<^verbatim>\<open>parseInput\<close> reads standard input through a \<^verbatim>\<open>bufio.Scanner\<close>; \<open>lines\<close>
  is the sequence of lines the scanner delivers (\<^verbatim>\<open>scanner.Text()\<close> after each
  successful \<^verbatim>\<open>scanner.Scan()\<close>), that is \<open>scanLines input\<close> for the bytes
  \<open>input\<close> of standard input. The loop ends when the lines run out or at
  \<^verbatim>\<open>break\<close>.
\<close>

fun parseInput_loop ::
    "int \<Rightarrow> unicode \<Rightarrow> string list \<Rightarrow> (string \<rightharpoonup> string) \<Rightarrow> string list \<Rightarrow> world
      \<Rightarrow> ((string \<rightharpoonup> string) \<times> string list) \<times> world" where
  "parseInput_loop verbosity U [] data wwwauth w = ((data, wwwauth), w)"
| "parseInput_loop verbosity U (text # lines) data wwwauth w =
     (let line = TrimSpace U text in
      if line = '''' then ((data, wwwauth), w)
      else
        (let idx = Index line ''='' in
         if idx \<noteq> - 1 then
           (let key = take (nat idx) line;
                val = drop (nat (idx + 1)) line;
                w' = debugf verbosity 3 (''Parsed input: '' @ key @ ''='' @ val) w in
            if key = ''wwwauth[]''
            then parseInput_loop verbosity U lines data (wwwauth @ [val]) w'
            else parseInput_loop verbosity U lines (data(key \<mapsto> val)) wwwauth w')
         else parseInput_loop verbosity U lines data wwwauth w))"

definition parseInput ::
    "int \<Rightarrow> unicode \<Rightarrow> string list \<Rightarrow> world
      \<Rightarrow> ((string \<rightharpoonup> string) \<times> string list) \<times> world" where
  "parseInput verbosity U lines w = parseInput_loop verbosity U lines Map.empty [] w"

text \<open>Indexing a Go map: the zero value, the empty string, for a key that is absent.\<close>

definition mapIndex :: "(string \<rightharpoonup> string) \<Rightarrow> string \<Rightarrow> string" where
  "mapIndex m k = (case m k of None \<Rightarrow> '''' | Some v \<Rightarrow> v)"

subsection \<open>The realm of a challenge header\<close>

text \<open>
  The regular expression \<^verbatim>\<open>realm="([^"]+)"\<close>. \<open>matchRealmAt s\<close> matches it at the
  start of \<open>s\<close> and gives the whole match and the group: after the seven bytes
  \<^verbatim>\<open>realm="\<close> the greedy group takes every byte up to the next double quote, it must
  take at least one, and a double quote must follow.
\<close>

definition dquote :: char where
  "dquote = CHR 0x22"

definition realmOpen :: string where
  "realmOpen = ''realm='' @ [dquote]"

definition matchRealmAt :: "string \<Rightarrow> (string \<times> string) option" where
  "matchRealmAt s =
     (if HasPrefix s realmOpen then
        (let rest = drop (length realmOpen) s;
             grp = takeWhile (\<lambda>c. c \<noteq> dquote) rest;
             after = dropWhile (\<lambda>c. c \<noteq> dquote) rest in
         if grp \<noteq> [] \<and> after \<noteq> [] then Some (realmOpen @ grp @ [dquote], grp) else None)
      else None)"

text \<open>
  \<^verbatim>\<open>re.FindStringSubmatch\<close>: the leftmost match, as the list of the whole match and
  the group; the empty list (\<^verbatim>\<open>nil\<close>) when nothing matches.
\<close>

fun FindStringSubmatch :: "string \<Rightarrow> string list" where
  "FindStringSubmatch [] = []"
| "FindStringSubmatch (c # s) =
     (case matchRealmAt (c # s) of
        Some (m, grp) \<Rightarrow> [m, grp]
      | None \<Rightarrow> FindStringSubmatch s)"

fun extractRealm :: "string list \<Rightarrow> string" where
  "extractRealm [] = ''''"
| "extractRealm (entry # wwwauthEntries) =
     (let matches = FindStringSubmatch entry in
      if length matches > 1 then matches ! 1 else extractRealm wwwauthEntries)"

subsection \<open>The token acquirer\<close>

text \<open>
  Package \<^verbatim>\<open>azidentity\<close>: the constructor of the Azure CLI credential, called with the
  tenant of its options (\<open>None\<close> for nil options), and the credential's
  \<^verbatim>\<open>GetToken\<close>, called with the one scope requested. The credential \<open>'c\<close> carries
  whatever state the client keeps between calls.
\<close>

record 'c azidentity =
  NewAzureCLICredential :: "string option \<Rightarrow> string + 'c"
  cred_GetToken :: "'c \<Rightarrow> string \<Rightarrow> (string + AccessToken) \<times> 'c"

definition getAccessToken ::
    "int \<Rightarrow> 'c azidentity \<Rightarrow> 'c \<Rightarrow> string \<Rightarrow> world
      \<Rightarrow> (string \<times> int64 \<times> string option) \<times> 'c \<times> world" where
  "getAccessToken verbosity az cred resource w =
     (let scope = resource;
          scope = (if \<not> HasSuffix scope ''/'' then scope @ ''/'' else scope);
          scope = scope @ ''.default'';
          w = debugf verbosity 2 (''Requesting token for scope: '' @ scope) w;
          (r, cred) = cred_GetToken az cred scope;
          w = w\<lparr>calls := calls w @ [GetToken scope r]\<rparr>
      in case r of
           Inl err \<Rightarrow>
             (('''', 0, Some err), cred, debugf verbosity 1 (''Failed to get token: '' @ err) w)
         | Inr token \<Rightarrow>
             ((Token token, Unix (ExpiresOn token), None), cred,
              debugf verbosity 2
                (''Token acquired, expires at: '' @ Format_v (ExpiresOn token)) w))"

definition outputCredential :: "string \<Rightarrow> int64 \<Rightarrow> world \<Rightarrow> world" where
  "outputCredential accessToken expiryUTC w =
     (let w = Println ''authtype=bearer'' w;
          w = Println ''username=null'' w;
          w = Printf (''password='' @ accessToken @ nl) w
      in if 0 <s expiryUTC
         then Printf (''password_expiry_utc='' @ fmt_d (sint expiryUTC) @ nl) w
         else w)"

subsection \<open>The resolution orchestrator\<close>

text \<open>How \<^verbatim>\<open>getCredential\<close> ends: it returns, or the process exits through \<^verbatim>\<open>os.Exit\<close>.\<close>

datatype outcome = Returned | Exit int

text \<open>
  The retry of \<^verbatim>\<open>getCredential\<close> (\<^verbatim>\<open>if err != nil { ... }\<close> after the first
  acquisition), on the three variables \<^verbatim>\<open>accessToken, expiryUTC, err\<close>.
\<close>

definition realmRetry ::
    "int \<Rightarrow> 'c azidentity \<Rightarrow> globals \<Rightarrow> string \<Rightarrow> string \<Rightarrow> string list
      \<Rightarrow> (string \<times> int64 \<times> string option) \<times> 'c \<times> world
      \<Rightarrow> (string \<times> int64 \<times> string option) \<times> 'c \<times> world" where
  "realmRetry verbosity az g protocol host wwwauth acw =
     (let ((accessToken, expiryUTC, err), cred, w) = acw in
      if err \<noteq> None then
        (let url = urlOf protocol host;
             hasURLOverride = (resourceOverrides g url \<noteq> None);
             hasHostOverride = (resourceOverrides g host \<noteq> None) in
         if \<not> hasURLOverride \<and> \<not> hasHostOverride then
           (let realm = extractRealm wwwauth in
            if realm \<noteq> '''' then
              getAccessToken verbosity az cred realm
                (debugf verbosity 1 (''Retrying with realm from wwwauth: '' @ realm) w)
            else acw)
         else acw)
      else acw)"

text \<open>
  The end of \<^verbatim>\<open>getCredential\<close>, once the credential is constructed: the first
  acquisition, the retry, and the output of what was obtained.
\<close>

definition getCredential_acquire ::
    "int \<Rightarrow> 'c azidentity \<Rightarrow> globals \<Rightarrow> string \<Rightarrow> string \<Rightarrow> string list \<Rightarrow> 'c \<Rightarrow> world
      \<Rightarrow> world" where
  "getCredential_acquire verbosity az g protocol host wwwauth cred w =
     (let resource = getResourceForHost g protocol host;
          w = debugf verbosity 1 (''Using resource: '' @ resource) w;
          acw = getAccessToken verbosity az cred resource w;
          ((accessToken, expiryUTC, err), cred, w) =
            realmRetry verbosity az g protocol host wwwauth acw
      in
      if err = None \<and> accessToken \<noteq> '''' then
        outputCredential accessToken expiryUTC
          (debugf verbosity 1 ''Successfully obtained credential'' w)
      else w)"

definition getCredential ::
    "int \<Rightarrow> unicode \<Rightarrow> gitconfig \<Rightarrow> 'c azidentity \<Rightarrow> string list \<Rightarrow> globals \<Rightarrow> world
      \<Rightarrow> outcome \<times> globals \<times> world" where
  "getCredential verbosity U git az lines g w =
     (let (g, w) = loadConfig verbosity U git g w;
          ((data, wwwauth), w) = parseInput verbosity U lines w;
          protocol = mapIndex data ''protocol'';
          host = mapIndex data ''host'';
          w = debugf verbosity 1 (''Handling get request for '' @ protocol @ ''://'' @ host) w
      in
      if protocol \<noteq> ''https'' then
        (Returned, g, debugf verbosity 1 (''Skipping non-HTTPS protocol: '' @ protocol) w)
      else if \<not> isAllowedHost U host (allowedDomains g) then
        (Returned, g, debugf verbosity 1 (''Host not in allowed domains: '' @ host) w)
      else
        (let tenant = getTenantForHost g protocol host;
             (credOpts, w) =
               (if tenant \<noteq> ''''
                then (Some tenant, debugf verbosity 1 (''Using tenant override: '' @ tenant) w)
                else (None, w))
         in case NewAzureCLICredential az credOpts of
              Inl err \<Rightarrow>
                (Exit 1, g,
                 debugf verbosity 1 (''Failed to create Azure CLI credential: '' @ err)
                   (w\<lparr>calls := calls w @ [NewCredential credOpts (Some err)]\<rparr>))
            | Inr cred \<Rightarrow>
                (Returned, g,
                 getCredential_acquire verbosity az g protocol host wwwauth cred
                   (w\<lparr>calls := calls w @ [NewCredential credOpts None]\<rparr>))))"

text \<open>
  The process's exit status when \<^verbatim>\<open>main\<close> runs the \<^verbatim>\<open>get\<close> command:
  \<^verbatim>\<open>rootCmd.Execute()\<close> calls \<^verbatim>\<open>getCredential\<close>, its result is dropped and
  \<^verbatim>\<open>main\<close> returns, unless \<^verbatim>\<open>os.Exit\<close> ended the process before.
\<close>

definition exitStatus :: "outcome \<Rightarrow> int" where
  "exitStatus oc = (case oc of Returned \<Rightarrow> 0 | Exit code \<Rightarrow> code)"

definition initial_world :: world where
  "initial_world = \<lparr>stdout = [], stderr = [], calls = []\<rparr>"

subsection \<open>One run of the \<^verbatim>\<open>get\<close> command\<close>

text \<open>
  The process starts with nothing written, no call made and the package variables at
  their zero values; \<open>verbosity\<close> is what the command line's \<^verbatim>\<open>-v\<close> flags gave.
\<close>

definition main_get ::
    "int \<Rightarrow> unicode \<Rightarrow> gitconfig \<Rightarrow> 'c azidentity \<Rightarrow> string list
      \<Rightarrow> outcome \<times> globals \<times> world" where
  "main_get verbosity U git az lines =
     getCredential verbosity U git az lines initial_globals initial_world"

text \<open>
  What the run computes before its first decision: the configuration that
  \<^verbatim>\<open>loadConfig\<close> leaves in the package variables, and the request that
  \<^verbatim>\<open>parseInput\<close> returns. (Neither depends on the verbosity.)
\<close>

definition loadedConfig :: "unicode \<Rightarrow> gitconfig \<Rightarrow> globals" where
  "loadedConfig U git = fst (loadConfig 0 U git initial_globals initial_world)"

definition requestData :: "unicode \<Rightarrow> string list \<Rightarrow> (string \<rightharpoonup> string)" where
  "requestData U lines = fst (fst (parseInput 0 U lines initial_world))"

definition requestHeaders :: "unicode \<Rightarrow> string list \<Rightarrow> string list" where
  "requestHeaders U lines = snd (fst (parseInput 0 U lines initial_world))"

definition requestProtocol :: "unicode \<Rightarrow> string list \<Rightarrow> string" where
  "requestProtocol U lines = mapIndex (requestData U lines) ''protocol''"

definition requestHost :: "unicode \<Rightarrow> string list \<Rightarrow> string" where
  "requestHost U lines = mapIndex (requestData U lines) ''host''"

text \<open>The two checks that \<^verbatim>\<open>getCredential\<close> makes before it turns to the broker.\<close>

definition inScope :: "unicode \<Rightarrow> gitconfig \<Rightarrow> string list \<Rightarrow> bool" where
  "inScope U git lines =
     (requestProtocol U lines = ''https''
      \<and> isAllowedHost U (requestHost U lines) (allowedDomains (loadedConfig U git)))"

text \<open>The options with which the run constructs the credential, and its first resource.\<close>

definition requestCredOpts :: "unicode \<Rightarrow> gitconfig \<Rightarrow> string list \<Rightarrow> string option" where
  "requestCredOpts U git lines =
     (let tenant = getTenantForHost (loadedConfig U git)
                     (requestProtocol U lines) (requestHost U lines)
      in if tenant \<noteq> '''' then Some tenant else None)"

definition requestResource :: "unicode \<Rightarrow> gitconfig \<Rightarrow> string list \<Rightarrow> string" where
  "requestResource U git lines =
     getResourceForHost (loadedConfig U git) (requestProtocol U lines) (requestHost U lines)"

text \<open>
  What \<^verbatim>\<open>getAccessToken\<close> is to request for a resource: the resource, with a
  slash added when it does not end with one, and then \<^verbatim>\<open>.default\<close>.
\<close>

definition tokenScope :: "string \<Rightarrow> string" where
  "tokenScope r = (if suffix ''/'' r then r else r @ ''/'') @ ''.default''"

text \<open>The retry's condition on the configuration and the challenge headers.\<close>

definition realmAvailable :: "unicode \<Rightarrow> gitconfig \<Rightarrow> string list \<Rightarrow> bool" where
  "realmAvailable U git lines =
     (resourceOverrides (loadedConfig U git)
        (urlOf (requestProtocol U lines) (requestHost U lines)) = None
      \<and> resourceOverrides (loadedConfig U git) (requestHost U lines) = None
      \<and> extractRealm (requestHeaders U lines) \<noteq> '''')"

text \<open>The results of the token requests among the calls, in order.\<close>

fun tokenResults :: "event list \<Rightarrow> (string \<times> (string + AccessToken)) list" where
  "tokenResults [] = []"
| "tokenResults (NewCredential opts err # es) = tokenResults es"
| "tokenResults (GetToken scope r # es) = (scope, r) # tokenResults es"

subsection \<open>The request as the specification describes it\<close>

text \<open>
  The lines of an input stream, whatever their length: the bytes between one newline
  and the next, and those after the last newline when there are any.
\<close>

function streamLines :: "string \<Rightarrow> string list" where
  "streamLines input =
     (if input = [] then []
      else
        (let line = takeWhile (\<lambda>c. c \<noteq> newline) input;
             rest = dropWhile (\<lambda>c. c \<noteq> newline) input in
         if rest = [] then [line] else line # streamLines (tl rest)))"
  by pat_completeness auto
termination
proof (relation "measure length")
  show "wf (measure length)"
    by simp
next
  fix input :: string and line rest
  assume "input \<noteq> []" and "rest = dropWhile (\<lambda>c. c \<noteq> newline) input" and "rest \<noteq> []"
  then have "length (tl rest) < length rest" and "length rest \<le> length input"
    by (simp_all add: length_dropWhile_le)
  then show "(tl rest, input) \<in> measure length"
    by simp
qed

declare streamLines.simps [simp del]

text \<open>
  The key and the value of a \<^verbatim>\<open>key=value\<close> line: what stands before its first
  \<^verbatim>\<open>=\<close>, and what stands after it.
\<close>

definition lineKey :: "string \<Rightarrow> string" where
  "lineKey l = takeWhile (\<lambda>c. c \<noteq> CHR ''='') l"

definition lineValue :: "string \<Rightarrow> string" where
  "lineValue l = tl (dropWhile (\<lambda>c. c \<noteq> CHR ''='') l)"

text \<open>
  The well-formed lines of a request: the lines before the first blank one (a line that
  is empty once the white space around it is trimmed), trimmed, that contain \<^verbatim>\<open>=\<close>.
\<close>

definition wellFormedLines :: "unicode \<Rightarrow> string list \<Rightarrow> string list" where
  "wellFormedLines U lines =
     filter (\<lambda>l. CHR ''='' \<in> set l)
       (map (TrimSpace U) (takeWhile (\<lambda>text. TrimSpace U text \<noteq> '''') lines))"

text \<open>The challenge headers: the values under the key \<^verbatim>\<open>wwwauth[]\<close>, in input order.\<close>

definition specHeaders :: "string list \<Rightarrow> string list" where
  "specHeaders ls = map lineValue (filter (\<lambda>l. lineKey l = ''wwwauth[]'') ls)"

text \<open>The attributes: under every other key, the value of the last line with that key.\<close>

definition specData :: "string list \<Rightarrow> (string \<rightharpoonup> string)" where
  "specData ls k =
     (if k = ''wwwauth[]'' then None
      else (case filter (\<lambda>l. lineKey l = k) ls of
              [] \<Rightarrow> None
            | x # xs \<Rightarrow> Some (lineValue (last (x # xs)))))"

subsection \<open>A realm in a challenge header, as the specification describes it\<close>

text \<open>
  The header \<open>h\<close> holds \<^verbatim>\<open>realm="v"\<close> at offset \<open>n\<close>, for a value \<open>v\<close>: a string
  that is not empty and holds no double quote.
\<close>

definition realmAt :: "string \<Rightarrow> nat \<Rightarrow> string \<Rightarrow> bool" where
  "realmAt h n v = (v \<noteq> [] \<and> dquote \<notin> set v \<and> prefix (realmOpen @ v @ [dquote]) (drop n h))"

subsection \<open>The scope, as the specification describes it\<close>

text \<open>
  A scope that is some \<open>r'\<close> followed by \<^verbatim>\<open>.default\<close>, where \<open>r'\<close> ends with
  exactly one slash.
\<close>

definition singleSlashScope :: "string \<Rightarrow> bool" where
  "singleSlashScope s = (suffix ''/.default'' s \<and> \<not> suffix ''//.default'' s)"

subsection \<open>Concrete configurations and runs\<close>

text \<open>
  Unicode slow paths that leave their argument alone. On ASCII strings, the only ones
  evaluated below, the library never enters them.
\<close>

definition asciiOnly :: unicode where
  "asciiOnly = \<lparr>MapToLower = (\<lambda>s. s), TrimFuncIsSpace = (\<lambda>s. s), TrimRightFuncIsSpace = (\<lambda>s. s)\<rparr>"

text \<open>A git configuration with no entry for the helper: the defaults are in effect.\<close>

definition noConfig :: gitconfig where
  "noConfig = \<lparr>cfg_GetAll = (\<lambda>key. []), cfg_List = (\<lambda>prefix. []), cfg_Get = (\<lambda>key. [])\<rparr>"

text \<open>
  The identity client in several states: a session that grants every scope, one whose
  tokens carry no expiry, no session, a constructor that rejects the tenant
  \<^verbatim>\<open>my tenant\<close> (a tenant identifier may not hold a space), and a session that grants
  one audience only.
\<close>

definition sampleToken :: AccessToken where
  "sampleToken = \<lparr>Token = ''eyJ0eXAiOiJKV1Qi'',
     ExpiresOn = \<lparr>Unix = 1767225600, Format_v = ''2026-01-01 00:00:00 +0000 UTC''\<rparr>\<rparr>"

definition azLoggedIn :: "unit azidentity" where
  "azLoggedIn = \<lparr>NewAzureCLICredential = (\<lambda>opts. Inr ()),
     cred_GetToken = (\<lambda>cred scope. (Inr sampleToken, cred))\<rparr>"

definition azNoExpiry :: "unit azidentity" where
  "azNoExpiry = \<lparr>NewAzureCLICredential = (\<lambda>opts. Inr ()),
     cred_GetToken = (\<lambda>cred scope.
       (Inr \<lparr>Token = ''eyJ0eXAiOiJKV1Qi'',
              ExpiresOn = \<lparr>Unix = 0, Format_v = ''1970-01-01 00:00:00 +0000 UTC''\<rparr>\<rparr>, cred))\<rparr>"

definition azLoggedOut :: "unit azidentity" where
  "azLoggedOut = \<lparr>NewAzureCLICredential = (\<lambda>opts. Inr ()),
     cred_GetToken = (\<lambda>cred scope. (Inl ''Please run az login to setup account'', cred))\<rparr>"

definition azTenantChecked :: "unit azidentity" where
  "azTenantChecked =
     \<lparr>NewAzureCLICredential =
        (\<lambda>opts. if opts = Some ''my tenant'' then Inl ''invalid tenantID'' else Inr ()),
      cred_GetToken = (\<lambda>cred scope. (Inr sampleToken, cred))\<rparr>"

definition azRealmOnly :: "unit azidentity" where
  "azRealmOnly = \<lparr>NewAzureCLICredential = (\<lambda>opts. Inr ()),
     cred_GetToken = (\<lambda>cred scope.
       (if scope = ''https://example.org/foo/.default'' then Inr sampleToken
        else Inl ''AADSTS500011: resource principal not found'', cred))\<rparr>"

text \<open>Requests as git writes them, the last with a challenge header that names a realm.\<close>

definition reqDevAzure :: "string list" where
  "reqDevAzure = [''protocol=https'', ''host=dev.azure.com'', '''']"

definition reqFtp :: "string list" where
  "reqFtp = [''protocol=ftp'', ''host=dev.azure.com'', '''']"

definition reqExample :: "string list" where
  "reqExample = [''protocol=https'', ''host=example.com'', '''']"

definition reqRealm :: "string list" where
  "reqRealm = [''protocol=https'', ''host=dev.azure.com'',
     ''wwwauth[]=Bearer realm='' @ [dquote] @ ''https://example.org/foo'' @ [dquote], '''']"

text \<open>The same request, with a realm that ends with two slashes.\<close>

definition reqRealmSlashes :: "string list" where
  "reqRealmSlashes = [''protocol=https'', ''host=dev.azure.com'',
     ''wwwauth[]=Bearer realm='' @ [dquote] @ ''https://example.org//'' @ [dquote], '''']"

text \<open>A table with an override for a proxy under both of its keys.\<close>

definition proxyOverrides :: globals where
  "proxyOverrides = initial_globals\<lparr>resourceOverrides :=
     [''https://proxy.example'' \<mapsto> ''api://full'', ''proxy.example'' \<mapsto> ''api://bare'']\<rparr>"

text \<open>Configurations whose allowed-domain entries are all blank, and partly blank.\<close>

definition blankDomains :: gitconfig where
  "blankDomains = noConfig\<lparr>cfg_GetAll := (\<lambda>key. [''  '', [CHR 0x09], ''''])\<rparr>"

definition contosoDomains :: gitconfig where
  "contosoDomains =
     noConfig\<lparr>cfg_GetAll := (\<lambda>key. ['' contoso.com '', '''', ''example.org'' @ [CHR 0x09]])\<rparr>"

text \<open>A request with a repeated key, a line without \<^verbatim>\<open>=\<close> and two challenge headers.\<close>

definition reqRepeated :: "string list" where
  "reqRepeated = [''protocol=http'', ''  host = a=b  '', ''garbage'', ''wwwauth[]=Basic'',
     ''protocol=https'', ''wwwauth[]=Bearer x=y'', ''  '', ''host=ignored'']"

text \<open>
  Standard input with carriage returns, a blank line and bytes after it; and standard
  input holding, between \<^verbatim>\<open>protocol=https\<close> and \<^verbatim>\<open>host=dev.azure.com\<close>, a line of
  70004 bytes.
\<close>

definition stdinCRLF :: string where
  "stdinCRLF = (''protocol=https'' @ [CHR 0x0D]) @ newline # ''host=dev.azure.com'' @ newline
     # [] @ newline # ''host=ignored''"

definition bigLine :: string where
  "bigLine = ''big='' @ replicate 70000 (CHR ''a'')"

definition stdinBig :: string where
  "stdinBig = ''protocol=https'' @ newline # bigLine @ newline # ''host=dev.azure.com'' @ [newline]"

text \<open>
  A configuration with a tenant override for \<^verbatim>\<open>https://dev.azure.com\<close>, whose value
  is not a tenant identifier.
\<close>

definition tenantConfig :: gitconfig where
  "tenantConfig =
     \<lparr>cfg_GetAll = (\<lambda>key. []),
      cfg_List = (\<lambda>prefix. [''azureclicredentialhelper.https://dev.azure.com.tenant'']),
      cfg_Get = (\<lambda>key. if key = ''azureclicredentialhelper.https://dev.azure.com.tenant''
                         then ''my tenant'' else '''')\<rparr>"

text \<open>A configuration with a resource override for \<^verbatim>\<open>https://dev.azure.com\<close>.\<close>

definition overrideConfig :: gitconfig where
  "overrideConfig =
     \<lparr>cfg_GetAll = (\<lambda>key. []),
      cfg_List = (\<lambda>prefix. [''azureclicredentialhelper.https://dev.azure.com.resource'']),
      cfg_Get = (\<lambda>key. if key = ''azureclicredentialhelper.https://dev.azure.com.resource''
                         then ''api://custom'' else '''')\<rparr>"

section \<open>Properties\<close>

lemma HasSuffix_iff_suffix: "HasSuffix s x \<longleftrightarrow> suffix x s"
  by (auto simp: HasSuffix_def suffix_def) (metis append_take_drop_id)

lemma HasPrefix_iff_prefix: "HasPrefix s p \<longleftrightarrow> prefix p s"
  by (auto simp: HasPrefix_def prefix_def) (metis append_take_drop_id)

subsection \<open>Debug messages go to standard error only\<close>

lemma debugf_simps [simp]:
  "stdout (debugf v l m w) = stdout w"
  "calls (debugf v l m w) = calls w"
  by (simp_all add: debugf_def)

lemma debugf_quiet: "v < l \<Longrightarrow> debugf v l m w = w"
  by (simp add: debugf_def)

subsection \<open>Configuration loading\<close>

lemma loadOverride_world:
  "stdout (snd (loadOverride v git k (g, w))) = stdout w"
  "calls (snd (loadOverride v git k (g, w))) = calls w"
  by (simp_all add: loadOverride_def Let_def)

lemma loadOverride_fst:
  "fst (loadOverride v git k (g, w)) = fst (loadOverride v' git k (g, w'))"
  by (simp add: loadOverride_def Let_def)

lemma loadOverride_allowed:
  "allowedDomains (fst (loadOverride v git k (g, w))) = allowedDomains g"
  by (simp add: loadOverride_def Let_def)

lemma loadOverride_quiet:
  "v < 1 \<Longrightarrow> snd (loadOverride v git k (g, w)) = w"
  by (simp add: loadOverride_def Let_def debugf_quiet)

lemma loadOverrides_world:
  "stdout (snd (loadOverrides v git ks gw)) = stdout (snd gw)
   \<and> calls (snd (loadOverrides v git ks gw)) = calls (snd gw)"
proof (induction ks arbitrary: gw)
  case Nil
  show ?case by simp
next
  case (Cons k ks)
  show ?case using Cons.IH [of "loadOverride v git k gw"]
    by (cases gw) (simp add: loadOverride_world)
qed

lemma loadOverrides_fst:
  "fst gw = fst gw' \<Longrightarrow> fst (loadOverrides v git ks gw) = fst (loadOverrides v' git ks gw')"
proof (induction ks arbitrary: gw gw')
  case Nil
  then show ?case by simp
next
  case (Cons k ks)
  have "fst (loadOverride v git k gw) = fst (loadOverride v' git k gw')"
    using Cons.prems loadOverride_fst [of v git k "fst gw" "snd gw" v' "snd gw'"]
    by (cases gw; cases gw') simp
  then show ?case using Cons.IH by simp
qed

lemma loadOverrides_allowed:
  "allowedDomains (fst (loadOverrides v git ks gw)) = allowedDomains (fst gw)"
proof (induction ks arbitrary: gw)
  case Nil
  show ?case by simp
next
  case (Cons k ks)
  show ?case using Cons.IH [of "loadOverride v git k gw"]
    by (cases gw) (simp add: loadOverride_allowed)
qed

lemma loadOverrides_quiet:
  "v < 1 \<Longrightarrow> snd (loadOverrides v git ks gw) = snd gw"
proof (induction ks arbitrary: gw)
  case Nil
  show ?case by simp
next
  case (Cons k ks)
  show ?case using Cons.IH [of "loadOverride v git k gw"] Cons.prems
    by (cases gw) (simp add: loadOverride_quiet)
qed

lemma loadConfig_world:
  "stdout (snd (loadConfig v U git g w)) = stdout w"
  "calls (snd (loadConfig v U git g w)) = calls w"
  by (simp_all add: loadConfig_def Let_def loadOverrides_world)

lemma loadConfig_fst:
  "fst (loadConfig v U git g w) = fst (loadConfig v' U git g w')"
  by (auto simp: loadConfig_def Let_def split_beta intro!: loadOverrides_fst)

lemma loadConfig_quiet:
  "v < 1 \<Longrightarrow> snd (loadConfig v U git g w) = w"
  by (simp add: loadConfig_def Let_def loadOverrides_quiet debugf_quiet)

lemma loadDomains_eq:
  "loadDomains U ds acc = acc @ filter (\<lambda>d. d \<noteq> '''') (map (TrimSpace U) ds)"
  by (induction ds arbitrary: acc) (simp_all add: Let_def)

lemma loadConfig_allowedDomains:
  "allowedDomains (fst (loadConfig v U git g w)) =
     (let domains = cfg_GetAll git ''azureclicredentialhelper.alloweddomain'';
          kept = allowedDomains g @ filter (\<lambda>d. d \<noteq> '''') (map (TrimSpace U) domains)
      in if domains = [] \<or> kept = [] then defaultAllowedDomains else kept)"
  by (simp add: loadConfig_def Let_def loadOverrides_allowed loadDomains_eq)

subsection \<open>Request parsing\<close>

lemma parseInput_loop_world:
  "stdout (snd (parseInput_loop v U ls d a w)) = stdout w
   \<and> calls (snd (parseInput_loop v U ls d a w)) = calls w"
  by (induction ls arbitrary: d a w) (simp_all add: Let_def)

lemma parseInput_loop_fst:
  "fst (parseInput_loop v U ls d a w) = fst (parseInput_loop v' U ls d a w')"
  by (induction ls arbitrary: d a w w') (simp_all add: Let_def)

lemma parseInput_loop_quiet:
  "v < 1 \<Longrightarrow> snd (parseInput_loop v U ls d a w) = w"
  by (induction ls arbitrary: d a w) (simp_all add: Let_def debugf_quiet)

subsection \<open>The domain matcher\<close>

lemma isAllowedHost_loop_iff:
  "isAllowedHost_loop U h ds \<longleftrightarrow>
     (\<exists>d \<in> set ds. h = ToLower U d \<or> suffix (''.'' @ ToLower U d) h)"
  by (induction ds) (auto simp: Let_def HasSuffix_iff_suffix)

lemma ToLower_ascii_examples:
  "ToLower U ''msazure.visualstudio.com'' = ''msazure.visualstudio.com''"
  "ToLower U ''notvisualstudio.com'' = ''notvisualstudio.com''"
  "ToLower U ''visualstudio.com'' = ''visualstudio.com''"
  by (simp_all add: ToLower_def isASCII_def RuneSelf_def lowerByte_def)

text \<open>
  Claim C2. For every host \<open>h\<close> and every list of domains \<open>D\<close>, \<^verbatim>\<open>isAllowedHost\<close>
  returns true exactly when some \<open>d\<close> in \<open>D\<close> is such that, both lower-cased, \<open>h\<close>
  equals \<open>d\<close> or \<open>h\<close> ends with a dot followed by \<open>d\<close>. So
  \<^verbatim>\<open>msazure.visualstudio.com\<close> is allowed under \<^verbatim>\<open>visualstudio.com\<close> and
  \<^verbatim>\<open>notvisualstudio.com\<close> is not. This holds whatever the library's lower-casing
  does to non-ASCII bytes.
\<close>

theorem isAllowedHost_iff:
  "(isAllowedHost U h D \<longleftrightarrow>
     (\<exists>d \<in> set D. ToLower U h = ToLower U d
                 \<or> suffix (''.'' @ ToLower U d) (ToLower U h)))
   \<and> isAllowedHost U ''msazure.visualstudio.com'' [''visualstudio.com'']
   \<and> \<not> isAllowedHost U ''notvisualstudio.com'' [''visualstudio.com'']"
proof (intro conjI)
  show "isAllowedHost U h D \<longleftrightarrow>
     (\<exists>d \<in> set D. ToLower U h = ToLower U d
                 \<or> suffix (''.'' @ ToLower U d) (ToLower U h))"
    by (simp add: isAllowedHost_def isAllowedHost_loop_iff)
  show "isAllowedHost U ''msazure.visualstudio.com'' [''visualstudio.com'']"
    by (simp add: isAllowedHost_def ToLower_ascii_examples HasSuffix_def)
  show "\<not> isAllowedHost U ''notvisualstudio.com'' [''visualstudio.com'']"
    by (simp add: isAllowedHost_def ToLower_ascii_examples HasSuffix_def)
qed

text \<open>A host in mixed case, matched by the second of two configured domains.\<close>

theorem isAllowedHost_iff_witness:
  "(\<exists>d \<in> set [''dev.azure.com'', ''VisualStudio.com''].
       ToLower asciiOnly ''MSAzure.visualstudio.COM'' = ToLower asciiOnly d
       \<or> suffix (''.'' @ ToLower asciiOnly d) (ToLower asciiOnly ''MSAzure.visualstudio.COM''))
   \<and> isAllowedHost asciiOnly ''MSAzure.visualstudio.COM''
        [''dev.azure.com'', ''VisualStudio.com'']"
proof -
  have "suffix (''.'' @ ToLower asciiOnly ''VisualStudio.com'')
          (ToLower asciiOnly ''MSAzure.visualstudio.COM'')"
    by code_simp
  then have ex: "\<exists>d \<in> set [''dev.azure.com'', ''VisualStudio.com''].
       ToLower asciiOnly ''MSAzure.visualstudio.COM'' = ToLower asciiOnly d
       \<or> suffix (''.'' @ ToLower asciiOnly d) (ToLower asciiOnly ''MSAzure.visualstudio.COM'')"
    by simp
  with isAllowedHost_iff [of asciiOnly "''MSAzure.visualstudio.COM''"
      "[''dev.azure.com'', ''VisualStudio.com'']"]
  show ?thesis by blast
qed

subsection \<open>The override resolver\<close>

text \<open>
  Claim C3. Resource resolution looks up the full-URL key \<open>p://h\<close> first, then the bare
  host \<open>h\<close>, and with neither present returns \<open>p://h\<close> followed by \<open>/\<close>. When both
  keys are present the full-URL entry is returned (the first conjunct does not ask
  anything of the bare-host entry). With an empty table, \<^verbatim>\<open>https\<close> and
  \<^verbatim>\<open>dev.azure.com\<close> give \<^verbatim>\<open>https://dev.azure.com/\<close>.
\<close>

theorem getResourceForHost_precedence:
  "(resourceOverrides g (p @ ''://'' @ h) = Some r \<longrightarrow> getResourceForHost g p h = r)
   \<and> (resourceOverrides g (p @ ''://'' @ h) = None \<and> resourceOverrides g h = Some r
        \<longrightarrow> getResourceForHost g p h = r)
   \<and> (resourceOverrides g (p @ ''://'' @ h) = None \<and> resourceOverrides g h = None
        \<longrightarrow> getResourceForHost g p h = p @ ''://'' @ h @ ''/'')
   \<and> getResourceForHost (g\<lparr>resourceOverrides := Map.empty\<rparr>) ''https'' ''dev.azure.com''
        = ''https://dev.azure.com/''"
  by (simp add: getResourceForHost_def urlOf_def)

theorem getResourceForHost_precedence_witness:
  "resourceOverrides proxyOverrides (''https'' @ ''://'' @ ''proxy.example'') = Some ''api://full''
   \<and> resourceOverrides proxyOverrides ''proxy.example'' = Some ''api://bare''
   \<and> getResourceForHost proxyOverrides ''https'' ''proxy.example'' = ''api://full''
   \<and> resourceOverrides proxyOverrides (''http'' @ ''://'' @ ''proxy.example'') = None
   \<and> getResourceForHost proxyOverrides ''http'' ''proxy.example'' = ''api://bare''
   \<and> resourceOverrides proxyOverrides (''https'' @ ''://'' @ ''dev.azure.com'') = None
   \<and> resourceOverrides proxyOverrides ''dev.azure.com'' = None
   \<and> getResourceForHost proxyOverrides ''https'' ''dev.azure.com'' = ''https://dev.azure.com/''"
proof -
  have a: "resourceOverrides proxyOverrides (''https'' @ ''://'' @ ''proxy.example'')
            = Some ''api://full''"
    by (simp add: proxyOverrides_def initial_globals_def)
  have b: "resourceOverrides proxyOverrides ''proxy.example'' = Some ''api://bare''"
    by (simp add: proxyOverrides_def initial_globals_def)
  have c: "resourceOverrides proxyOverrides (''http'' @ ''://'' @ ''proxy.example'') = None"
    by (simp add: proxyOverrides_def initial_globals_def)
  have d: "resourceOverrides proxyOverrides (''https'' @ ''://'' @ ''dev.azure.com'') = None"
    by (simp add: proxyOverrides_def initial_globals_def)
  have e: "resourceOverrides proxyOverrides ''dev.azure.com'' = None"
    by (simp add: proxyOverrides_def initial_globals_def)
  from a b c d e
    getResourceForHost_precedence [of proxyOverrides "''https''" "''proxy.example''" "''api://full''"]
    getResourceForHost_precedence [of proxyOverrides "''http''" "''proxy.example''" "''api://bare''"]
    getResourceForHost_precedence [of proxyOverrides "''https''" "''dev.azure.com''"]
  show ?thesis by simp
qed

lemma parseInput_world:
  "stdout (snd (parseInput v U ls w)) = stdout w"
  "calls (snd (parseInput v U ls w)) = calls w"
  by (simp_all add: parseInput_def parseInput_loop_world)

lemma parseInput_quiet: "v < 1 \<Longrightarrow> snd (parseInput v U ls w) = w"
  by (simp add: parseInput_def parseInput_loop_quiet)

lemma fst_loadConfig [simp]:
  "fst (loadConfig v U git initial_globals w) = loadedConfig U git"
  unfolding loadedConfig_def by (rule loadConfig_fst)

lemma fst_parseInput [simp]:
  "fst (parseInput v U ls w) = (requestData U ls, requestHeaders U ls)"
  unfolding requestData_def requestHeaders_def parseInput_def
  by (simp add: parseInput_loop_fst [of v U ls _ _ w 0 initial_world])

subsection \<open>Token acquisition\<close>

lemma getAccessToken_result:
  "fst (getAccessToken v az c r w) =
     (case fst (cred_GetToken az c (tokenScope r)) of
        Inl e \<Rightarrow> ('''', 0, Some e)
      | Inr t \<Rightarrow> (Token t, Unix (ExpiresOn t), None))"
  by (simp add: getAccessToken_def tokenScope_def HasSuffix_iff_suffix Let_def split_beta
           split: sum.splits)

lemma getAccessToken_cred:
  "fst (snd (getAccessToken v az c r w)) = snd (cred_GetToken az c (tokenScope r))"
  by (simp add: getAccessToken_def tokenScope_def HasSuffix_iff_suffix Let_def split_beta
           split: sum.splits)

lemma getAccessToken_world:
  "stdout (snd (snd (getAccessToken v az c r w))) = stdout w"
  "calls (snd (snd (getAccessToken v az c r w))) =
     calls w @ [GetToken (tokenScope r) (fst (cred_GetToken az c (tokenScope r)))]"
  by (simp_all add: getAccessToken_def tokenScope_def HasSuffix_iff_suffix Let_def split_beta
           split: sum.splits)

lemma getAccessToken_quiet:
  "v < 1 \<Longrightarrow> stderr (snd (snd (getAccessToken v az c r w))) = stderr w"
  by (simp add: getAccessToken_def Let_def split_beta debugf_quiet split: sum.splits)

lemma outputCredential_world:
  "stdout (outputCredential t e w) =
     stdout w @ ''authtype=bearer'' @ nl @ ''username=null'' @ nl @ ''password='' @ t @ nl
       @ (if 0 <s e then ''password_expiry_utc='' @ fmt_d (sint e) @ nl else [])"
  "calls (outputCredential t e w) = calls w"
  "stderr (outputCredential t e w) = stderr w"
  by (simp_all add: outputCredential_def Println_def Printf_def Let_def)

subsection \<open>The run, case by case\<close>

lemma main_get_out_of_scope:
  assumes "\<not> inScope U git lines"
  shows "fst (main_get v U git az lines) = Returned"
    and "stdout (snd (snd (main_get v U git az lines))) = []"
    and "calls (snd (snd (main_get v U git az lines))) = []"
  using assms
  by (auto simp: main_get_def getCredential_def inScope_def requestProtocol_def
        requestHost_def Let_def split_beta parseInput_world loadConfig_world
        initial_world_def)

lemma main_get_no_credential:
  assumes "inScope U git lines"
    and "NewAzureCLICredential az (requestCredOpts U git lines) = Inl e"
  shows "fst (main_get v U git az lines) = Exit 1"
    and "stdout (snd (snd (main_get v U git az lines))) = []"
    and "calls (snd (snd (main_get v U git az lines))) =
           [NewCredential (requestCredOpts U git lines) (Some e)]"
  using assms
  by (auto simp: main_get_def getCredential_def inScope_def requestProtocol_def
        requestHost_def requestCredOpts_def Let_def split_beta parseInput_world
        loadConfig_world initial_world_def)

lemma realmRetry_eq:
  "realmRetry v az g p h hs acw =
     (if snd (snd (fst acw)) \<noteq> None \<and> resourceOverrides g (urlOf p h) = None
         \<and> resourceOverrides g h = None \<and> extractRealm hs \<noteq> ''''
      then getAccessToken v az (fst (snd acw)) (extractRealm hs)
             (debugf v 1 (''Retrying with realm from wwwauth: '' @ extractRealm hs)
                (snd (snd acw)))
      else acw)"
  by (simp add: realmRetry_def Let_def split_beta)

lemmas acquire_unfold = getCredential_acquire_def Let_def split_beta realmRetry_eq
  getAccessToken_result getAccessToken_cred getAccessToken_world outputCredential_world

lemma acquire_primary_ok:
  assumes "cred_GetToken az c (tokenScope (getResourceForHost g p h)) = (Inr t, c1)"
  shows "calls (getCredential_acquire v az g p h hs c w) =
           calls w @ [GetToken (tokenScope (getResourceForHost g p h)) (Inr t)]"
    and "stdout (getCredential_acquire v az g p h hs c w) =
           stdout w @
           (if Token t \<noteq> '''' then
              ''authtype=bearer'' @ nl @ ''username=null'' @ nl @ ''password='' @ Token t @ nl
              @ (if 0 <s Unix (ExpiresOn t)
                 then ''password_expiry_utc='' @ fmt_d (sint (Unix (ExpiresOn t))) @ nl else [])
            else [])"
  using assms by (simp_all add: acquire_unfold)

lemma acquire_primary_failed:
  assumes "cred_GetToken az c (tokenScope (getResourceForHost g p h)) = (Inl e1, c1)"
    and "\<not> (resourceOverrides g (urlOf p h) = None \<and> resourceOverrides g h = None
            \<and> extractRealm hs \<noteq> '''')"
  shows "calls (getCredential_acquire v az g p h hs c w) =
           calls w @ [GetToken (tokenScope (getResourceForHost g p h)) (Inl e1)]"
    and "stdout (getCredential_acquire v az g p h hs c w) = stdout w"
  using assms by (auto simp: acquire_unfold)

lemma acquire_retry:
  assumes "cred_GetToken az c (tokenScope (getResourceForHost g p h)) = (Inl e1, c1)"
    and "resourceOverrides g (urlOf p h) = None" and "resourceOverrides g h = None"
    and "extractRealm hs \<noteq> ''''"
    and "cred_GetToken az c1 (tokenScope (extractRealm hs)) = (r2, c2)"
  shows "calls (getCredential_acquire v az g p h hs c w) =
           calls w @ [GetToken (tokenScope (getResourceForHost g p h)) (Inl e1),
                      GetToken (tokenScope (extractRealm hs)) r2]"
    and "stdout (getCredential_acquire v az g p h hs c w) =
           stdout w @
           (case r2 of
              Inl e2 \<Rightarrow> []
            | Inr t \<Rightarrow>
               if Token t \<noteq> '''' then
                 ''authtype=bearer'' @ nl @ ''username=null'' @ nl @ ''password='' @ Token t @ nl
                 @ (if 0 <s Unix (ExpiresOn t)
                    then ''password_expiry_utc='' @ fmt_d (sint (Unix (ExpiresOn t))) @ nl
                    else [])
               else [])"
  using assms by (simp_all add: acquire_unfold split: sum.splits)

lemma acquire_quiet:
  "v < 1 \<Longrightarrow> stderr (getCredential_acquire v az g p h hs c w) = stderr w"
  by (simp add: getCredential_acquire_def Let_def split_beta realmRetry_eq
        getAccessToken_quiet outputCredential_world debugf_quiet)

lemmas main_get_unfold = main_get_def getCredential_def inScope_def requestProtocol_def
  requestHost_def requestCredOpts_def requestResource_def realmAvailable_def
  Let_def split_beta parseInput_world loadConfig_world initial_world_def

lemma main_get_primary_ok:
  assumes "inScope U git lines"
    and "NewAzureCLICredential az (requestCredOpts U git lines) = Inr c"
    and "cred_GetToken az c (tokenScope (requestResource U git lines)) = (Inr t, c1)"
  shows "fst (main_get v U git az lines) = Returned"
    and "calls (snd (snd (main_get v U git az lines))) =
           [NewCredential (requestCredOpts U git lines) None,
            GetToken (tokenScope (requestResource U git lines)) (Inr t)]"
    and "stdout (snd (snd (main_get v U git az lines))) =
           (if Token t \<noteq> '''' then
              ''authtype=bearer'' @ nl @ ''username=null'' @ nl @ ''password='' @ Token t @ nl
              @ (if 0 <s Unix (ExpiresOn t)
                 then ''password_expiry_utc='' @ fmt_d (sint (Unix (ExpiresOn t))) @ nl else [])
            else [])"
  using assms by (auto simp: main_get_unfold acquire_primary_ok)

lemma main_get_primary_failed:
  assumes "inScope U git lines"
    and "NewAzureCLICredential az (requestCredOpts U git lines) = Inr c"
    and "cred_GetToken az c (tokenScope (requestResource U git lines)) = (Inl e1, c1)"
    and "\<not> realmAvailable U git lines"
  shows "fst (main_get v U git az lines) = Returned"
    and "calls (snd (snd (main_get v U git az lines))) =
           [NewCredential (requestCredOpts U git lines) None,
            GetToken (tokenScope (requestResource U git lines)) (Inl e1)]"
    and "stdout (snd (snd (main_get v U git az lines))) = []"
  using assms by (auto simp: main_get_unfold acquire_primary_failed)

lemma main_get_retry:
  assumes "inScope U git lines"
    and "NewAzureCLICredential az (requestCredOpts U git lines) = Inr c"
    and "cred_GetToken az c (tokenScope (requestResource U git lines)) = (Inl e1, c1)"
    and "realmAvailable U git lines"
    and "cred_GetToken az c1 (tokenScope (extractRealm (requestHeaders U lines))) = (r2, c2)"
  shows "fst (main_get v U git az lines) = Returned"
    and "calls (snd (snd (main_get v U git az lines))) =
           [NewCredential (requestCredOpts U git lines) None,
            GetToken (tokenScope (requestResource U git lines)) (Inl e1),
            GetToken (tokenScope (extractRealm (requestHeaders U lines))) r2]"
    and "stdout (snd (snd (main_get v U git az lines))) =
           (case r2 of
              Inl e2 \<Rightarrow> []
            | Inr t \<Rightarrow>
               if Token t \<noteq> '''' then
                 ''authtype=bearer'' @ nl @ ''username=null'' @ nl @ ''password='' @ Token t @ nl
                 @ (if 0 <s Unix (ExpiresOn t)
                    then ''password_expiry_utc='' @ fmt_d (sint (Unix (ExpiresOn t))) @ nl
                    else [])
               else [])"
  using assms by (auto simp: main_get_unfold acquire_retry)

lemma main_get_quiet:
  "v < 1 \<Longrightarrow> stderr (snd (snd (main_get v U git az lines))) = []"
  by (auto simp: main_get_def getCredential_def Let_def split_beta acquire_quiet debugf_quiet
        parseInput_quiet loadConfig_quiet initial_world_def split: sum.splits)

subsection \<open>Requests out of scope\<close>

text \<open>
  Claim C6. A request whose protocol is not \<^verbatim>\<open>https\<close>, and an \<^verbatim>\<open>https\<close> request whose
  host the allowed domains do not match, write nothing to standard output, and the process
  ends by returning from \<^verbatim>\<open>getCredential\<close>, with exit status 0.
\<close>

theorem out_of_scope_silent:
  assumes "requestProtocol U lines \<noteq> ''https''
           \<or> \<not> isAllowedHost U (requestHost U lines) (allowedDomains (loadedConfig U git))"
  shows "stdout (snd (snd (main_get v U git az lines))) = []
         \<and> fst (main_get v U git az lines) = Returned
         \<and> exitStatus (fst (main_get v U git az lines)) = 0"
proof -
  from assms have "\<not> inScope U git lines"
    by (auto simp: inScope_def)
  then show ?thesis
    by (simp add: main_get_out_of_scope exitStatus_def)
qed

text \<open>
  The two examples of the specification, under the default domains: \<^verbatim>\<open>protocol=ftp\<close>,
  and \<^verbatim>\<open>host=example.com\<close>.
\<close>

theorem out_of_scope_silent_witness:
  "requestProtocol asciiOnly reqFtp \<noteq> ''https''
   \<and> stdout (snd (snd (main_get 0 asciiOnly noConfig azLoggedIn reqFtp))) = []
   \<and> exitStatus (fst (main_get 0 asciiOnly noConfig azLoggedIn reqFtp)) = 0
   \<and> requestProtocol asciiOnly reqExample = ''https''
   \<and> \<not> isAllowedHost asciiOnly (requestHost asciiOnly reqExample)
          (allowedDomains (loadedConfig asciiOnly noConfig))
   \<and> stdout (snd (snd (main_get 0 asciiOnly noConfig azLoggedIn reqExample))) = []
   \<and> exitStatus (fst (main_get 0 asciiOnly noConfig azLoggedIn reqExample)) = 0"
proof -
  have ftp: "requestProtocol asciiOnly reqFtp \<noteq> ''https''"
    by code_simp
  have https: "requestProtocol asciiOnly reqExample = ''https''"
    by code_simp
  have host: "\<not> isAllowedHost asciiOnly (requestHost asciiOnly reqExample)
                 (allowedDomains (loadedConfig asciiOnly noConfig))"
    by code_simp
  from ftp https host
    out_of_scope_silent [of asciiOnly reqFtp noConfig 0 azLoggedIn]
    out_of_scope_silent [of asciiOnly reqExample noConfig 0 azLoggedIn]
  show ?thesis by blast
qed

lemma main_get_calls_in_scope:
  assumes "inScope U git lines"
  shows "\<exists>r rest. calls (snd (snd (main_get v U git az lines))) =
           NewCredential (requestCredOpts U git lines) r # rest"
proof (cases "NewAzureCLICredential az (requestCredOpts U git lines)")
  case (Inl e)
  then show ?thesis using assms by (simp add: main_get_no_credential)
next
  case (Inr c)
  obtain r1 c1 where r1: "cred_GetToken az c (tokenScope (requestResource U git lines)) = (r1, c1)"
    by (cases "cred_GetToken az c (tokenScope (requestResource U git lines))")
  show ?thesis
  proof (cases r1)
    case (Inr t)
    then show ?thesis using assms \<open>NewAzureCLICredential az _ = Inr c\<close> r1
      by (simp add: main_get_primary_ok)
  next
    case (Inl e1)
    show ?thesis
    proof (cases "realmAvailable U git lines")
      case False
      then show ?thesis using assms \<open>NewAzureCLICredential az _ = Inr c\<close> r1 Inl
        by (simp add: main_get_primary_failed)
    next
      case True
      obtain r2 c2 where
        "cred_GetToken az c1 (tokenScope (extractRealm (requestHeaders U lines))) = (r2, c2)"
        by (cases "cred_GetToken az c1 (tokenScope (extractRealm (requestHeaders U lines)))")
      then show ?thesis using assms \<open>NewAzureCLICredential az _ = Inr c\<close> r1 Inl True
        by (simp add: main_get_retry)
    qed
  qed
qed

text \<open>
  Claim C7. The two checks come before any call into the broker: on a run where the
  protocol is not \<^verbatim>\<open>https\<close> or the host is not allowed, the credential is never
  constructed and no token is requested (the run makes no call at all); and a run that
  makes a call has passed both checks, and its first call is the construction of the
  credential.
\<close>

theorem broker_only_in_scope:
  "(requestProtocol U lines \<noteq> ''https''
      \<or> \<not> isAllowedHost U (requestHost U lines) (allowedDomains (loadedConfig U git))
    \<longrightarrow> calls (snd (snd (main_get v U git az lines))) = [])
   \<and> (calls (snd (snd (main_get v U git az lines))) \<noteq> []
        \<longrightarrow> requestProtocol U lines = ''https''
          \<and> isAllowedHost U (requestHost U lines) (allowedDomains (loadedConfig U git))
          \<and> (\<exists>r. hd (calls (snd (snd (main_get v U git az lines))))
                   = NewCredential (requestCredOpts U git lines) r))"
proof -
  have out: "\<not> inScope U git lines \<Longrightarrow> calls (snd (snd (main_get v U git az lines))) = []"
    by (rule main_get_out_of_scope)
  have "inScope U git lines
        \<Longrightarrow> \<exists>r. hd (calls (snd (snd (main_get v U git az lines))))
                 = NewCredential (requestCredOpts U git lines) r"
    using main_get_calls_in_scope [of U git lines v az] by auto
  with out show ?thesis
    unfolding inScope_def by blast
qed

theorem broker_only_in_scope_witness:
  "requestProtocol asciiOnly reqFtp \<noteq> ''https''
   \<and> calls (snd (snd (main_get 0 asciiOnly noConfig azLoggedIn reqFtp))) = []
   \<and> \<not> isAllowedHost asciiOnly (requestHost asciiOnly reqExample)
          (allowedDomains (loadedConfig asciiOnly noConfig))
   \<and> calls (snd (snd (main_get 0 asciiOnly noConfig azLoggedIn reqExample))) = []
   \<and> calls (snd (snd (main_get 0 asciiOnly noConfig azLoggedIn reqDevAzure))) \<noteq> []
   \<and> requestProtocol asciiOnly reqDevAzure = ''https''
   \<and> isAllowedHost asciiOnly (requestHost asciiOnly reqDevAzure)
        (allowedDomains (loadedConfig asciiOnly noConfig))"
proof -
  have ftp: "requestProtocol asciiOnly reqFtp \<noteq> ''https''"
    by code_simp
  have host: "\<not> isAllowedHost asciiOnly (requestHost asciiOnly reqExample)
                 (allowedDomains (loadedConfig asciiOnly noConfig))"
    by code_simp
  have called: "calls (snd (snd (main_get 0 asciiOnly noConfig azLoggedIn reqDevAzure))) \<noteq> []"
    by code_simp
  from ftp host called
    broker_only_in_scope [of asciiOnly reqFtp noConfig 0 azLoggedIn]
    broker_only_in_scope [of asciiOnly reqExample noConfig 0 azLoggedIn]
    broker_only_in_scope [of asciiOnly reqDevAzure noConfig 0 azLoggedIn]
  show ?thesis by blast
qed

subsection \<open>Failure to construct the credential\<close>

lemma debugf_loud:
  "l \<le> v \<Longrightarrow> stderr (debugf v l m w) = stderr w @ ''[DEBUG] '' @ m @ nl"
  by (simp add: debugf_def)

lemma main_get_no_credential_stderr:
  assumes "inScope U git lines"
    and "NewAzureCLICredential az (requestCredOpts U git lines) = Inl e"
    and "1 \<le> v"
  shows "suffix (''[DEBUG] Failed to create Azure CLI credential: '' @ e @ nl)
           (stderr (snd (snd (main_get v U git az lines))))"
  using assms
  by (auto simp: main_get_def getCredential_def inScope_def requestProtocol_def
        requestHost_def requestCredOpts_def Let_def split_beta debugf_loud suffix_def)

lemma main_get_exit_iff:
  "fst (main_get v U git az lines) \<noteq> Returned \<longleftrightarrow>
     inScope U git lines \<and> (\<exists>e. NewAzureCLICredential az (requestCredOpts U git lines) = Inl e)"
  by (auto simp: main_get_def getCredential_def inScope_def requestProtocol_def
        requestHost_def requestCredOpts_def Let_def split_beta split: sum.splits)

text \<open>
  Claim C9, as the code has it. When the credential cannot be constructed the process
  exits with status 1 and nothing on standard output. The message that describes the
  failure is a debug message: it is the last thing written to standard error when the
  verbosity is at least 1, and nothing at all is written to standard error when the
  verbosity is 0. No other run of the command ends with a status other than 0.
\<close>

theorem credential_failure_exit:
  "(inScope U git lines \<and> NewAzureCLICredential az (requestCredOpts U git lines) = Inl e
      \<longrightarrow> fst (main_get v U git az lines) = Exit 1
        \<and> exitStatus (fst (main_get v U git az lines)) = 1
        \<and> stdout (snd (snd (main_get v U git az lines))) = []
        \<and> (1 \<le> v \<longrightarrow>
             suffix (''[DEBUG] Failed to create Azure CLI credential: '' @ e @ nl)
               (stderr (snd (snd (main_get v U git az lines)))))
        \<and> (v < 1 \<longrightarrow> stderr (snd (snd (main_get v U git az lines))) = []))
   \<and> (exitStatus (fst (main_get v U git az lines)) \<noteq> 0 \<longleftrightarrow>
        inScope U git lines
        \<and> (\<exists>e. NewAzureCLICredential az (requestCredOpts U git lines) = Inl e))"
proof (intro conjI impI)
  assume a: "inScope U git lines
             \<and> NewAzureCLICredential az (requestCredOpts U git lines) = Inl e"
  then show exit: "fst (main_get v U git az lines) = Exit 1"
    by (simp add: main_get_no_credential)
  then show "exitStatus (fst (main_get v U git az lines)) = 1"
    by (simp add: exitStatus_def)
  from a show "stdout (snd (snd (main_get v U git az lines))) = []"
    by (simp add: main_get_no_credential)
  {
    assume "1 \<le> v"
    with a show "suffix (''[DEBUG] Failed to create Azure CLI credential: '' @ e @ nl)
                   (stderr (snd (snd (main_get v U git az lines))))"
      by (blast intro: main_get_no_credential_stderr)
  }
  {
    assume "v < 1"
    then show "stderr (snd (snd (main_get v U git az lines))) = []"
      by (rule main_get_quiet)
  }
next
  show "exitStatus (fst (main_get v U git az lines)) \<noteq> 0 \<longleftrightarrow>
        inScope U git lines
        \<and> (\<exists>e. NewAzureCLICredential az (requestCredOpts U git lines) = Inl e)"
  proof (cases "fst (main_get v U git az lines)")
    case Returned
    then show ?thesis using main_get_exit_iff [of v U git az lines]
      by (simp add: exitStatus_def)
  next
    case (Exit code)
    then have in_sc: "inScope U git lines
        \<and> (\<exists>e. NewAzureCLICredential az (requestCredOpts U git lines) = Inl e)"
      using main_get_exit_iff [of v U git az lines] by simp
    then have "fst (main_get v U git az lines) = Exit 1"
      by (auto simp: main_get_no_credential)
    with in_sc show ?thesis by (simp add: exitStatus_def)
  qed
qed

text \<open>
  With a tenant override that the constructor rejects, at verbosity 1 (one \<^verbatim>\<open>-v\<close>) the
  message is written; and a run in scope whose credential is constructed ends with
  status 0.
\<close>

theorem credential_failure_exit_witness:
  "inScope asciiOnly tenantConfig reqDevAzure
   \<and> NewAzureCLICredential azTenantChecked (requestCredOpts asciiOnly tenantConfig reqDevAzure)
       = Inl ''invalid tenantID''
   \<and> exitStatus (fst (main_get 1 asciiOnly tenantConfig azTenantChecked reqDevAzure)) = 1
   \<and> stdout (snd (snd (main_get 1 asciiOnly tenantConfig azTenantChecked reqDevAzure))) = []
   \<and> suffix (''[DEBUG] Failed to create Azure CLI credential: '' @ ''invalid tenantID'' @ nl)
        (stderr (snd (snd (main_get 1 asciiOnly tenantConfig azTenantChecked reqDevAzure))))
   \<and> exitStatus (fst (main_get 1 asciiOnly noConfig azTenantChecked reqDevAzure)) = 0"
proof -
  have sc: "inScope asciiOnly tenantConfig reqDevAzure"
    by code_simp
  have new: "NewAzureCLICredential azTenantChecked
               (requestCredOpts asciiOnly tenantConfig reqDevAzure) = Inl ''invalid tenantID''"
    by code_simp
  have "requestCredOpts asciiOnly noConfig reqDevAzure = None"
    by code_simp
  then have ok: "\<not> (\<exists>e. NewAzureCLICredential azTenantChecked
                    (requestCredOpts asciiOnly noConfig reqDevAzure) = Inl e)"
    by (simp add: azTenantChecked_def)
  from sc new ok
    credential_failure_exit [of asciiOnly tenantConfig reqDevAzure azTenantChecked
      "''invalid tenantID''" 1]
    credential_failure_exit [of asciiOnly noConfig reqDevAzure azTenantChecked _ 1]
  show ?thesis by blast
qed

text \<open>
  Claim C9 as stated fails: git runs the helper without \<^verbatim>\<open>-v\<close>, so the verbosity is 0;
  with a tenant override that the constructor rejects the process exits with status 1
  and has written nothing to standard error.
\<close>

theorem credential_failure_silent_counterexample:
  "fst (main_get 0 asciiOnly tenantConfig azTenantChecked reqDevAzure) = Exit 1
   \<and> calls (snd (snd (main_get 0 asciiOnly tenantConfig azTenantChecked reqDevAzure)))
       = [NewCredential (Some ''my tenant'') (Some ''invalid tenantID'')]
   \<and> stderr (snd (snd (main_get 0 asciiOnly tenantConfig azTenantChecked reqDevAzure))) = []"
  by code_simp

subsection \<open>The credential written\<close>

text \<open>
  Claim C5. If on a run the broker yields a token \<open>T\<close> that is not empty, with expiry
  \<open>E\<close>, then standard output is exactly the lines \<^verbatim>\<open>authtype=bearer\<close>,
  \<^verbatim>\<open>username=null\<close>, \<^verbatim>\<open>password=T\<close> and, only when \<open>E\<close> is positive,
  \<^verbatim>\<open>password_expiry_utc=E\<close>. On a run where the broker yields no such token, nothing
  is written to standard output. (A run whose request is out of scope asks for no token.)
\<close>

theorem credential_output:
  "(\<forall>scope t. (scope, Inr t) \<in> set (tokenResults (calls (snd (snd (main_get v U git az lines)))))
        \<and> Token t \<noteq> ''''
      \<longrightarrow> inScope U git lines
        \<and> stdout (snd (snd (main_get v U git az lines))) =
            ''authtype=bearer'' @ nl @ ''username=null'' @ nl @ ''password='' @ Token t @ nl
            @ (if 0 <s Unix (ExpiresOn t)
               then ''password_expiry_utc='' @ fmt_d (sint (Unix (ExpiresOn t))) @ nl
               else []))
   \<and> ((\<forall>scope t. (scope, Inr t) \<in> set (tokenResults (calls (snd (snd (main_get v U git az lines)))))
          \<longrightarrow> Token t = '''')
      \<longrightarrow> stdout (snd (snd (main_get v U git az lines))) = [])"
proof (cases "inScope U git lines")
  case False
  then show ?thesis by (simp add: main_get_out_of_scope)
next
  case True
  show ?thesis
  proof (cases "NewAzureCLICredential az (requestCredOpts U git lines)")
    case (Inl e)
    then show ?thesis using True by (simp add: main_get_no_credential)
  next
    case (Inr c)
    obtain r1 c1 where
      r1: "cred_GetToken az c (tokenScope (requestResource U git lines)) = (r1, c1)"
      by (cases "cred_GetToken az c (tokenScope (requestResource U git lines))")
    show ?thesis
    proof (cases r1)
      case (Inr t1)
      then show ?thesis using True \<open>NewAzureCLICredential az _ = Inr c\<close> r1
        by (simp add: main_get_primary_ok)
    next
      case (Inl e1)
      show ?thesis
      proof (cases "realmAvailable U git lines")
        case False
        then show ?thesis using True \<open>NewAzureCLICredential az _ = Inr c\<close> r1 Inl
          by (simp add: main_get_primary_failed)
      next
        case avail: True
        obtain r2 c2 where
          r2: "cred_GetToken az c1 (tokenScope (extractRealm (requestHeaders U lines)))
                 = (r2, c2)"
          by (cases "cred_GetToken az c1 (tokenScope (extractRealm (requestHeaders U lines)))")
        show ?thesis
          using True \<open>NewAzureCLICredential az _ = Inr c\<close> r1 Inl avail r2
          by (cases r2) (simp_all add: main_get_retry)
      qed
    qed
  qed
qed

text \<open>
  A session that grants the token of \<^term>\<open>sampleToken\<close>, whose expiry 1767225600 is
  positive: four lines. The same token with expiry 0: three lines. No session: nothing.
\<close>

theorem credential_output_witness:
  "(''https://dev.azure.com/.default'', Inr sampleToken)
     \<in> set (tokenResults (calls (snd (snd (main_get 0 asciiOnly noConfig azLoggedIn reqDevAzure)))))
   \<and> Token sampleToken \<noteq> ''''
   \<and> stdout (snd (snd (main_get 0 asciiOnly noConfig azLoggedIn reqDevAzure))) =
       ''authtype=bearer'' @ nl @ ''username=null'' @ nl @ ''password=eyJ0eXAiOiJKV1Qi'' @ nl
       @ ''password_expiry_utc=1767225600'' @ nl
   \<and> stdout (snd (snd (main_get 0 asciiOnly noConfig azNoExpiry reqDevAzure))) =
       ''authtype=bearer'' @ nl @ ''username=null'' @ nl @ ''password=eyJ0eXAiOiJKV1Qi'' @ nl
   \<and> stdout (snd (snd (main_get 0 asciiOnly noConfig azLoggedOut reqDevAzure))) = []"
proof -
  have yields: "(''https://dev.azure.com/.default'', Inr sampleToken)
     \<in> set (tokenResults (calls (snd (snd (main_get 0 asciiOnly noConfig azLoggedIn reqDevAzure)))))"
    by code_simp
  have token: "Token sampleToken = ''eyJ0eXAiOiJKV1Qi''"
    by (simp add: sampleToken_def)
  have expiry: "0 <s Unix (ExpiresOn sampleToken)"
    by (simp add: sampleToken_def word_sless_alt)
  have digits: "fmt_d (sint (Unix (ExpiresOn sampleToken))) = ''1767225600''"
    by code_simp
  have yields0: "(''https://dev.azure.com/.default'',
       Inr \<lparr>Token = ''eyJ0eXAiOiJKV1Qi'',
             ExpiresOn = \<lparr>Unix = 0, Format_v = ''1970-01-01 00:00:00 +0000 UTC''\<rparr>\<rparr>)
     \<in> set (tokenResults (calls (snd (snd (main_get 0 asciiOnly noConfig azNoExpiry reqDevAzure)))))"
    by code_simp
  have "tokenResults (calls (snd (snd (main_get 0 asciiOnly noConfig azLoggedOut reqDevAzure))))
          = [(''https://dev.azure.com/.default'', Inl ''Please run az login to setup account'')]"
    by code_simp
  then have none: "\<forall>scope t. (scope, Inr t)
      \<in> set (tokenResults (calls (snd (snd (main_get 0 asciiOnly noConfig azLoggedOut reqDevAzure)))))
      \<longrightarrow> Token t = ''''"
    by simp
  from yields token expiry digits
    credential_output [of 0 asciiOnly noConfig azLoggedIn reqDevAzure]
  have "stdout (snd (snd (main_get 0 asciiOnly noConfig azLoggedIn reqDevAzure))) =
       ''authtype=bearer'' @ nl @ ''username=null'' @ nl @ ''password=eyJ0eXAiOiJKV1Qi'' @ nl
       @ ''password_expiry_utc=1767225600'' @ nl"
    by fastforce
  moreover from yields0 credential_output [of 0 asciiOnly noConfig azNoExpiry reqDevAzure]
  have "stdout (snd (snd (main_get 0 asciiOnly noConfig azNoExpiry reqDevAzure))) =
       ''authtype=bearer'' @ nl @ ''username=null'' @ nl @ ''password=eyJ0eXAiOiJKV1Qi'' @ nl"
    by fastforce
  moreover from none credential_output [of 0 asciiOnly noConfig azLoggedOut reqDevAzure]
  have "stdout (snd (snd (main_get 0 asciiOnly noConfig azLoggedOut reqDevAzure))) = []"
    by blast
  ultimately show ?thesis using yields token by simp
qed

subsection \<open>The scope requested\<close>

lemma suffix_default_iff: "suffix (x @ ''.default'') (r @ ''.default'') \<longleftrightarrow> suffix x r"
  by simp

text \<open>
  Claim C4, as the code has it. For every resource \<open>r\<close> the scope that
  \<^verbatim>\<open>getAccessToken\<close> requests from the broker is \<open>r'\<close> followed by
  \<^verbatim>\<open>.default\<close>, where \<open>r'\<close> is \<open>r\<close> itself when \<open>r\<close> ends with a slash and
  \<open>r\<close> with a slash added otherwise. So \<open>r'\<close> always ends with a slash, and with
  exactly one when \<open>r\<close> does not end with two: slashes are added, never removed.
\<close>

theorem getAccessToken_scope:
  "calls (snd (snd (getAccessToken v az cred r w))) =
     calls w @ [GetToken ((if suffix ''/'' r then r else r @ ''/'') @ ''.default'')
                  (fst (cred_GetToken az cred ((if suffix ''/'' r then r else r @ ''/'')
                                                @ ''.default'')))]
   \<and> suffix ''/.default'' ((if suffix ''/'' r then r else r @ ''/'') @ ''.default'')
   \<and> (\<not> suffix ''//'' r
        \<longrightarrow> singleSlashScope ((if suffix ''/'' r then r else r @ ''/'') @ ''.default''))"
proof (intro conjI impI)
  show "calls (snd (snd (getAccessToken v az cred r w))) =
     calls w @ [GetToken ((if suffix ''/'' r then r else r @ ''/'') @ ''.default'')
                  (fst (cred_GetToken az cred ((if suffix ''/'' r then r else r @ ''/'')
                                                @ ''.default'')))]"
    using getAccessToken_world(2) [of v az cred r w] by (simp only: tokenScope_def)
  have slash: "suffix ''/'' (if suffix ''/'' r then r else r @ ''/'')"
    by simp
  then show "suffix ''/.default'' ((if suffix ''/'' r then r else r @ ''/'') @ ''.default'')"
    using suffix_default_iff [of "''/''"] by simp
  assume "\<not> suffix ''//'' r"
  then have "\<not> suffix ''//'' (if suffix ''/'' r then r else r @ ''/'')"
    by (auto simp: suffix_def)
  with slash show "singleSlashScope ((if suffix ''/'' r then r else r @ ''/'') @ ''.default'')"
    unfolding singleSlashScope_def
    using suffix_default_iff [of "''/''"] suffix_default_iff [of "''//''"] by simp
qed

theorem getAccessToken_scope_witness:
  "\<not> suffix ''//'' ''https://dev.azure.com''
   \<and> calls (snd (snd (getAccessToken 0 azLoggedIn () ''https://dev.azure.com'' initial_world)))
       = [GetToken ''https://dev.azure.com/.default'' (Inr sampleToken)]
   \<and> singleSlashScope ''https://dev.azure.com/.default''
   \<and> \<not> suffix ''//'' ''https://dev.azure.com/''
   \<and> calls (snd (snd (getAccessToken 0 azLoggedIn () ''https://dev.azure.com/'' initial_world)))
       = [GetToken ''https://dev.azure.com/.default'' (Inr sampleToken)]"
proof -
  have a: "\<not> suffix ''//'' ''https://dev.azure.com''"
    by (simp add: suffix_def)
  have b: "\<not> suffix ''//'' ''https://dev.azure.com/''"
    by (simp add: suffix_def)
  have c: "\<not> suffix ''/'' ''https://dev.azure.com''"
    by (simp add: suffix_def)
  have d: "suffix ''/'' ''https://dev.azure.com/''"
    by (simp add: suffix_def)
  from a b c d
    getAccessToken_scope [of 0 azLoggedIn "()" "''https://dev.azure.com''" initial_world]
    getAccessToken_scope [of 0 azLoggedIn "()" "''https://dev.azure.com/''" initial_world]
  show ?thesis by (simp add: initial_world_def azLoggedIn_def)
qed

text \<open>
  Claim C4 as stated fails on a resource that ends with two slashes. With no session and
  the challenge header \<^verbatim>\<open>Bearer realm="https://example.org//"\<close>, the run's second
  request is for the realm, and its scope keeps both slashes.
\<close>

theorem getAccessToken_scope_counterexample:
  "tokenResults (calls (snd (snd (main_get 0 asciiOnly noConfig azLoggedOut reqRealmSlashes))))
     = [(''https://dev.azure.com/.default'', Inl ''Please run az login to setup account''),
        (''https://example.org//.default'', Inl ''Please run az login to setup account'')]
   \<and> \<not> singleSlashScope ''https://example.org//.default''"
  by code_simp

subsection \<open>The allowed domains\<close>

text \<open>
  Claim C10. After \<^verbatim>\<open>loadConfig\<close> the list of allowed domains is never empty. In a
  run of the command it is the configured entries, each trimmed, without those that
  are empty after trimming; and it is the default list, \<^verbatim>\<open>visualstudio.com\<close> and
  \<^verbatim>\<open>dev.azure.com\<close>, when none is left: when there was no entry, and also when
  every entry was blank.
\<close>

theorem allowedDomains_loaded:
  "allowedDomains (fst (loadConfig v U git g w)) \<noteq> []
   \<and> allowedDomains (loadedConfig U git) =
       (let kept = filter (\<lambda>d. d \<noteq> '''')
                     (map (TrimSpace U) (cfg_GetAll git ''azureclicredentialhelper.alloweddomain''))
        in if kept = [] then [''visualstudio.com'', ''dev.azure.com''] else kept)"
proof
  show "allowedDomains (fst (loadConfig v U git g w)) \<noteq> []"
    by (simp add: loadConfig_allowedDomains Let_def defaultAllowedDomains_def)
  show "allowedDomains (loadedConfig U git) =
       (let kept = filter (\<lambda>d. d \<noteq> '''')
                     (map (TrimSpace U) (cfg_GetAll git ''azureclicredentialhelper.alloweddomain''))
        in if kept = [] then [''visualstudio.com'', ''dev.azure.com''] else kept)"
    unfolding loadedConfig_def
    by (auto simp: loadConfig_allowedDomains Let_def defaultAllowedDomains_def
          initial_globals_def)
qed

theorem allowedDomains_loaded_witness:
  "allowedDomains (loadedConfig asciiOnly noConfig) = [''visualstudio.com'', ''dev.azure.com'']
   \<and> allowedDomains (loadedConfig asciiOnly blankDomains)
        = [''visualstudio.com'', ''dev.azure.com'']
   \<and> allowedDomains (loadedConfig asciiOnly contosoDomains) = [''contoso.com'', ''example.org'']"
proof -
  have a: "filter (\<lambda>d. d \<noteq> '''') (map (TrimSpace asciiOnly)
             (cfg_GetAll noConfig ''azureclicredentialhelper.alloweddomain'')) = []"
    by code_simp
  have b: "filter (\<lambda>d. d \<noteq> '''') (map (TrimSpace asciiOnly)
             (cfg_GetAll blankDomains ''azureclicredentialhelper.alloweddomain'')) = []"
    by code_simp
  have c: "filter (\<lambda>d. d \<noteq> '''') (map (TrimSpace asciiOnly)
             (cfg_GetAll contosoDomains ''azureclicredentialhelper.alloweddomain''))
           = [''contoso.com'', ''example.org'']"
    by code_simp
  from allowedDomains_loaded [of 0 asciiOnly noConfig initial_globals initial_world]
    allowedDomains_loaded [of 0 asciiOnly blankDomains initial_globals initial_world]
    allowedDomains_loaded [of 0 asciiOnly contosoDomains initial_globals initial_world]
  show ?thesis by (simp add: a b c Let_def)
qed

subsection \<open>The request parser\<close>

lemma Index_char:
  "Index s [c] = (if c \<in> set s then int (length (takeWhile (\<lambda>x. x \<noteq> c) s)) else - 1)"
  by (induction s) (auto simp: HasPrefix_def Let_def)

lemma key_of_Index:
  "CHR ''='' \<in> set l \<Longrightarrow> take (nat (Index l ''='')) l = lineKey l"
  by (simp add: Index_char lineKey_def takeWhile_eq_take [symmetric])

lemma value_of_Index:
  "CHR ''='' \<in> set l \<Longrightarrow> drop (nat (Index l ''='' + 1)) l = lineValue l"
proof -
  assume "CHR ''='' \<in> set l"
  then have "nat (Index l ''='' + 1) = Suc (length (takeWhile (\<lambda>x. x \<noteq> CHR ''='') l))"
    by (simp add: Index_char)
  then show ?thesis
    by (simp add: lineValue_def dropWhile_eq_drop drop_Suc drop_tl)
qed

lemma Index_absent: "CHR ''='' \<notin> set l \<Longrightarrow> Index l ''='' = - 1"
  by (simp add: Index_char)

lemma Index_present: "CHR ''='' \<in> set l \<Longrightarrow> Index l ''='' \<noteq> - 1"
  by (simp add: Index_char)

lemma specData_Cons_marker:
  "lineKey l = ''wwwauth[]'' \<Longrightarrow> specData (l # ls) = specData ls"
  by (rule ext) (simp add: specData_def)

lemma specData_Cons:
  "lineKey l \<noteq> ''wwwauth[]'' \<Longrightarrow>
   specData (l # ls) k =
     (if k = ''wwwauth[]'' then None
      else case specData ls k of
             None \<Rightarrow> (if lineKey l = k then Some (lineValue l) else None)
           | Some x \<Rightarrow> Some x)"
  by (auto simp: specData_def split: list.splits)

lemma parseInput_loop_spec:
  "fst (parseInput_loop v U lines d a w) =
     (\<lambda>k. if k = ''wwwauth[]'' then d k
          else case specData (wellFormedLines U lines) k of None \<Rightarrow> d k | Some x \<Rightarrow> Some x,
      a @ specHeaders (wellFormedLines U lines))"
proof (induction lines arbitrary: d a w)
  case Nil
  show ?case by (simp add: wellFormedLines_def specHeaders_def specData_def fun_eq_iff)
next
  case (Cons t ts)
  let ?l = "TrimSpace U t"
  show ?case
  proof (cases "?l = ''''")
    case True
    then show ?thesis
      by (simp add: wellFormedLines_def specHeaders_def specData_def fun_eq_iff)
  next
    case nonblank: False
    show ?thesis
    proof (cases "CHR ''='' \<in> set ?l")
      case False
      then have skip: "wellFormedLines U (t # ts) = wellFormedLines U ts"
        using nonblank by (simp add: wellFormedLines_def)
      show ?thesis
        using nonblank False Cons.IH by (simp add: Index_absent Let_def skip fun_eq_iff)
    next
      case True
      then have wf: "wellFormedLines U (t # ts) = ?l # wellFormedLines U ts"
        using nonblank by (simp add: wellFormedLines_def)
      show ?thesis
      proof (cases "lineKey ?l = ''wwwauth[]''")
        case marker: True
        then show ?thesis
          using nonblank True wf Cons.IH
          by (simp add: Index_present key_of_Index value_of_Index Let_def specHeaders_def
                specData_Cons_marker fun_eq_iff)
      next
        case other: False
        have step: "(\<lambda>k. if k = ''wwwauth[]'' then (d(lineKey ?l \<mapsto> lineValue ?l)) k
                   else case specData (wellFormedLines U ts) k of
                          None \<Rightarrow> (d(lineKey ?l \<mapsto> lineValue ?l)) k | Some x \<Rightarrow> Some x)
              = (\<lambda>k. if k = ''wwwauth[]'' then d k
                   else case specData (wellFormedLines U (t # ts)) k of
                          None \<Rightarrow> d k | Some x \<Rightarrow> Some x)"
          using other by (auto simp: wf specData_Cons fun_eq_iff split: option.splits)
        have hdrs: "specHeaders (wellFormedLines U (t # ts)) = specHeaders (wellFormedLines U ts)"
          using other by (simp add: wf specHeaders_def)
        show ?thesis
          using nonblank True other Cons.IH
          by (simp add: Index_present key_of_Index value_of_Index Let_def step hdrs)
      qed
    qed
  qed
qed

subsection \<open>The scanner on standard input\<close>

lemma scanLines_Nil: "scanLines [] = []"
  by (simp add: scanLines.simps)

lemma streamLines_Nil: "streamLines [] = []"
  by (simp add: streamLines.simps)

lemma takeWhile_line:
  "newline \<notin> set l \<Longrightarrow> takeWhile (\<lambda>c. c \<noteq> newline) (l @ newline # rest) = l"
  by (induction l) auto

lemma dropWhile_line:
  "newline \<notin> set l \<Longrightarrow> dropWhile (\<lambda>c. c \<noteq> newline) (l @ newline # rest) = newline # rest"
  by (induction l) auto

lemma takeWhile_all:
  "newline \<notin> set l \<Longrightarrow> takeWhile (\<lambda>c. c \<noteq> newline) l = l"
  by (induction l) auto

lemma dropWhile_all:
  "newline \<notin> set l \<Longrightarrow> dropWhile (\<lambda>c. c \<noteq> newline) l = []"
  by (induction l) auto

lemma scanLines_line:
  "newline \<notin> set l \<Longrightarrow> length l < MaxScanTokenSize \<Longrightarrow>
   scanLines (l @ newline # rest) = dropCR l # scanLines rest"
  by (subst scanLines.simps) (simp add: takeWhile_line dropWhile_line Let_def)

lemma scanLines_too_long:
  "newline \<notin> set l \<Longrightarrow> MaxScanTokenSize \<le> length l \<Longrightarrow> scanLines (l @ newline # rest) = []"
  by (subst scanLines.simps) (simp add: takeWhile_line dropWhile_line Let_def)

lemma scanLines_last:
  "newline \<notin> set l \<Longrightarrow> l \<noteq> [] \<Longrightarrow> length l < MaxScanTokenSize \<Longrightarrow> scanLines l = [dropCR l]"
  by (subst scanLines.simps) (simp add: Let_def takeWhile_all dropWhile_all)

lemma streamLines_line:
  "newline \<notin> set l \<Longrightarrow> streamLines (l @ newline # rest) = l # streamLines rest"
  by (subst streamLines.simps) (simp add: takeWhile_line dropWhile_line Let_def)

lemma streamLines_last:
  "newline \<notin> set l \<Longrightarrow> l \<noteq> [] \<Longrightarrow> streamLines l = [l]"
  by (subst streamLines.simps) (simp add: Let_def takeWhile_all dropWhile_all)

lemma scanLines_streamLines:
  "scanLines input =
     map dropCR (takeWhile (\<lambda>l. length l < MaxScanTokenSize) (streamLines input))"
proof (induction input rule: scanLines.induct)
  case (1 input)
  show ?case
  proof (cases "input = []")
    case True
    then show ?thesis by (simp add: scanLines_Nil streamLines_Nil)
  next
    case False
    let ?line = "takeWhile (\<lambda>c. c \<noteq> newline) input"
    let ?rest = "dropWhile (\<lambda>c. c \<noteq> newline) input"
    show ?thesis
    proof (cases "MaxScanTokenSize \<le> length ?line")
      case True
      then show ?thesis using False
        by (subst scanLines.simps, subst streamLines.simps) (simp add: Let_def)
    next
      case short: False
      show ?thesis
      proof (cases "?rest = []")
        case True
        then show ?thesis using False short
          by (subst scanLines.simps, subst streamLines.simps) (simp add: Let_def)
      next
        case more: False
        have "scanLines (tl ?rest) =
                map dropCR (takeWhile (\<lambda>l. length l < MaxScanTokenSize) (streamLines (tl ?rest)))"
          using "1.IH" [OF False refl refl] short more by simp
        then show ?thesis using False short more
          by (subst scanLines.simps, subst streamLines.simps) (auto simp: Let_def)
      qed
    qed
  qed
qed

lemma TrimSpace_unchanged:
  assumes "s \<noteq> []"
    and "of_char (hd s) < RuneSelf" and "\<not> asciiSpace (hd s)"
    and "of_char (last s) < RuneSelf" and "\<not> asciiSpace (last s)"
  shows "TrimSpace U s = s"
proof -
  from assms(1) obtain c t where s: "s = c # t"
    by (cases s) auto
  with assms(2,3) have left: "trimLeft U s = Inr s"
    by simp
  have "rev s = last s # rev (butlast s)"
    using assms(1) by (metis append_butlast_last_id rev.simps(2) rev_append
        append_Nil rev.simps(1) append_Cons)
  moreover have "trimRight U (last s # rev (butlast s)) = rev (last s # rev (butlast s))"
    using assms(4,5) by simp
  ultimately have "trimRight U (rev s) = s"
    by (metis rev_rev_ident)
  with left show ?thesis
    by (simp add: TrimSpace_def)
qed

subsection \<open>Examples of standard input\<close>

lemma bigLine_facts:
  "newline \<notin> set bigLine" "MaxScanTokenSize \<le> length bigLine" "bigLine \<noteq> []"
  "hd bigLine = CHR ''b''" "last bigLine = CHR ''a''" "CHR ''='' \<in> set bigLine"
  "lineKey bigLine = ''big''"
  by (simp_all add: bigLine_def newline_def MaxScanTokenSize_def lineKey_def)

lemma scanLines_stdinBig: "scanLines stdinBig = [''protocol=https'']"
proof -
  have "scanLines (bigLine @ newline # ''host=dev.azure.com'' @ [newline]) = []"
    using bigLine_facts(1,2) by (rule scanLines_too_long)
  then show ?thesis
    unfolding stdinBig_def
    using scanLines_line [of "''protocol=https''"
        "bigLine @ newline # ''host=dev.azure.com'' @ [newline]"]
    by (simp add: newline_def MaxScanTokenSize_def dropCR_def)
qed

lemma streamLines_stdinBig:
  "streamLines stdinBig = [''protocol=https'', bigLine, ''host=dev.azure.com'']"
proof -
  have "streamLines (''host=dev.azure.com'' @ newline # []) = [''host=dev.azure.com'']"
    using streamLines_line [of "''host=dev.azure.com''" "[]"]
    by (simp add: newline_def streamLines_Nil)
  then have "streamLines (bigLine @ newline # ''host=dev.azure.com'' @ [newline])
               = [bigLine, ''host=dev.azure.com'']"
    using streamLines_line [OF bigLine_facts(1), of "''host=dev.azure.com'' @ [newline]"]
    by simp
  then show ?thesis
    unfolding stdinBig_def
    using streamLines_line [of "''protocol=https''"
        "bigLine @ newline # ''host=dev.azure.com'' @ [newline]"]
    by (simp add: newline_def)
qed

lemma streamLines_stdinCRLF:
  "streamLines stdinCRLF =
     [''protocol=https'' @ [CHR 0x0D], ''host=dev.azure.com'', '''', ''host=ignored'']"
proof -
  have a: "streamLines ''host=ignored'' = [''host=ignored'']"
    using streamLines_last [of "''host=ignored''"] by (simp add: newline_def)
  have b: "streamLines ([] @ newline # ''host=ignored'') = ['''', ''host=ignored'']"
    using streamLines_line [of "[]" "''host=ignored''"] a by simp
  have c: "streamLines (''host=dev.azure.com'' @ newline # [] @ newline # ''host=ignored'')
             = [''host=dev.azure.com'', '''', ''host=ignored'']"
    using streamLines_line [of "''host=dev.azure.com''" "[] @ newline # ''host=ignored''"] b
    by (simp add: newline_def)
  show ?thesis
    unfolding stdinCRLF_def
    using streamLines_line [of "''protocol=https'' @ [CHR 0x0D]"
        "''host=dev.azure.com'' @ newline # [] @ newline # ''host=ignored''"] c
    by (simp add: newline_def)
qed

lemma wellFormedLines_stdinBig:
  "wellFormedLines asciiOnly (map dropCR (streamLines stdinBig))
     = [''protocol=https'', bigLine, ''host=dev.azure.com'']"
proof -
  have big: "TrimSpace asciiOnly bigLine = bigLine"
    by (rule TrimSpace_unchanged)
       (simp_all add: bigLine_facts RuneSelf_def asciiSpace_def)
  have cr: "dropCR bigLine = bigLine"
    by (simp add: dropCR_def bigLine_facts)
  have p: "TrimSpace asciiOnly ''protocol=https'' = ''protocol=https''"
    by code_simp
  have h: "TrimSpace asciiOnly ''host=dev.azure.com'' = ''host=dev.azure.com''"
    by code_simp
  have pc: "dropCR ''protocol=https'' = ''protocol=https''"
    and hc: "dropCR ''host=dev.azure.com'' = ''host=dev.azure.com''"
    by (simp_all add: dropCR_def)
  have ne: "bigLine \<noteq> []"
    by (rule bigLine_facts)
  show ?thesis
    unfolding streamLines_stdinBig wellFormedLines_def
    using big cr p h pc hc ne bigLine_facts(6)
    by simp
qed


subsection \<open>The request parser on standard input\<close>

lemma specData_stdinBig:
  "specData [''protocol=https'', bigLine, ''host=dev.azure.com''] ''host'' = Some ''dev.azure.com''"
  by (simp add: specData_def bigLine_facts(7)) (simp add: lineKey_def lineValue_def)

lemma parseInput_protocol_only:
  "fst (fst (parseInput 0 asciiOnly [''protocol=https''] initial_world)) ''host'' = None"
  by code_simp

lemma wellFormedLines_stdinCRLF:
  "wellFormedLines asciiOnly
     (map dropCR [''protocol=https'' @ [CHR 0x0D], ''host=dev.azure.com'', '''', ''host=ignored''])
     = [''protocol=https'', ''host=dev.azure.com'']"
  by code_simp

lemma specData_stdinCRLF:
  "specData [''protocol=https'', ''host=dev.azure.com''] ''protocol'' = Some ''https''"
  "specData [''protocol=https'', ''host=dev.azure.com''] ''host'' = Some ''dev.azure.com''"
  "specHeaders [''protocol=https'', ''host=dev.azure.com''] = []"
  by code_simp+

text \<open>
  Claim C8, as the code has it. \<^verbatim>\<open>parseInput\<close> reads standard input through a
  \<^verbatim>\<open>bufio.Scanner\<close> with the default buffer and never looks at the scanner's error. So
  it reads the lines up to the first blank line, to the end of the input, or to the first
  line of \<^verbatim>\<open>MaxScanTokenSize\<close> (65536) bytes or more, whichever comes first. Of the
  lines it reads, those with the key \<^verbatim>\<open>wwwauth[]\<close> give the challenge headers, in input
  order; under every other key the attributes hold the value of the last line with that
  key; and a line with no \<^verbatim>\<open>=\<close> leaves no trace. A line is blank when it is empty after
  trimming, and keys and values are those of the trimmed line.

  The conjuncts, in order: the parser on the bytes \<open>input\<close> of standard input; the lines
  the scanner delivers for these bytes, which end before the first line at or over the
  limit; an input whose lines are all below the limit is read to its first blank line or
  to its end; the parser on any sequence of lines; what follows the first
  blank line is not read; a line with no \<^verbatim>\<open>=\<close> changes nothing.
\<close>

theorem parseInput_spec:
  "fst (parseInput v U (scanLines input) w) =
     (specData (wellFormedLines U
        (map dropCR (takeWhile (\<lambda>l. length l < MaxScanTokenSize) (streamLines input)))),
      specHeaders (wellFormedLines U
        (map dropCR (takeWhile (\<lambda>l. length l < MaxScanTokenSize) (streamLines input)))))
   \<and> scanLines input =
       map dropCR (takeWhile (\<lambda>l. length l < MaxScanTokenSize) (streamLines input))
   \<and> ((\<forall>l \<in> set (streamLines input). length l < MaxScanTokenSize)
        \<longrightarrow> fst (parseInput v U (scanLines input) w) =
              (specData (wellFormedLines U (map dropCR (streamLines input))),
               specHeaders (wellFormedLines U (map dropCR (streamLines input)))))
   \<and> fst (parseInput v U lines w) =
       (specData (wellFormedLines U lines), specHeaders (wellFormedLines U lines))
   \<and> ((\<forall>l \<in> set before. TrimSpace U l \<noteq> '''') \<and> TrimSpace U blank = ''''
        \<longrightarrow> fst (parseInput v U (before @ blank # rest) w) = fst (parseInput v U before w))
   \<and> (CHR ''='' \<notin> set (TrimSpace U noeq) \<and> TrimSpace U noeq \<noteq> ''''
        \<longrightarrow> fst (parseInput v U (before @ noeq # rest) w) = fst (parseInput v U (before @ rest) w))"
proof (intro conjI impI)
  have general: "fst (parseInput v U ls w) =
     (specData (wellFormedLines U ls), specHeaders (wellFormedLines U ls))" for ls
    unfolding parseInput_def
    by (simp add: parseInput_loop_spec specData_def fun_eq_iff split: list.splits)
  show "fst (parseInput v U lines w) =
     (specData (wellFormedLines U lines), specHeaders (wellFormedLines U lines))"
    by (rule general)
  show scanned: "scanLines input =
       map dropCR (takeWhile (\<lambda>l. length l < MaxScanTokenSize) (streamLines input))"
    by (rule scanLines_streamLines)
  show "fst (parseInput v U (scanLines input) w) =
     (specData (wellFormedLines U
        (map dropCR (takeWhile (\<lambda>l. length l < MaxScanTokenSize) (streamLines input)))),
      specHeaders (wellFormedLines U
        (map dropCR (takeWhile (\<lambda>l. length l < MaxScanTokenSize) (streamLines input)))))"
    using general [of "scanLines input"] by (simp only: scanned)
  assume "\<forall>l \<in> set (streamLines input). length l < MaxScanTokenSize"
  then have "takeWhile (\<lambda>l. length l < MaxScanTokenSize) (streamLines input) = streamLines input"
    by simp
  with scanned have "scanLines input = map dropCR (streamLines input)"
    by simp
  then show "fst (parseInput v U (scanLines input) w) =
              (specData (wellFormedLines U (map dropCR (streamLines input))),
               specHeaders (wellFormedLines U (map dropCR (streamLines input))))"
    using general [of "scanLines input"] by simp
next
  assume a: "(\<forall>l \<in> set before. TrimSpace U l \<noteq> '''') \<and> TrimSpace U blank = ''''"
  then have all: "\<And>x. x \<in> set before \<Longrightarrow> TrimSpace U x \<noteq> ''''"
    by blast
  have "takeWhile (\<lambda>text. TrimSpace U text \<noteq> '''') (before @ blank # rest)
          = before @ takeWhile (\<lambda>text. TrimSpace U text \<noteq> '''') (blank # rest)"
    using all by (rule takeWhile_append2)
  with a have tw1: "takeWhile (\<lambda>text. TrimSpace U text \<noteq> '''') (before @ blank # rest) = before"
    by simp
  from all have tw2: "takeWhile (\<lambda>text. TrimSpace U text \<noteq> '''') before = before"
    by simp
  have "wellFormedLines U (before @ blank # rest) = wellFormedLines U before"
    unfolding wellFormedLines_def by (simp only: tw1 tw2)
  then show "fst (parseInput v U (before @ blank # rest) w) = fst (parseInput v U before w)"
    unfolding parseInput_def by (simp add: parseInput_loop_spec fun_eq_iff)
next
  assume "CHR ''='' \<notin> set (TrimSpace U noeq) \<and> TrimSpace U noeq \<noteq> ''''"
  then have "wellFormedLines U (before @ noeq # rest) = wellFormedLines U (before @ rest)"
    by (auto simp: wellFormedLines_def takeWhile_append)
  then show "fst (parseInput v U (before @ noeq # rest) w) = fst (parseInput v U (before @ rest) w)"
    unfolding parseInput_def by (simp add: parseInput_loop_spec fun_eq_iff)
qed

text \<open>
  A request in bytes, its first line ended by a carriage return and a newline, that goes
  on after its blank line; and a request in lines that repeats \<^verbatim>\<open>protocol\<close>, holds a line
  without \<^verbatim>\<open>=\<close> and two challenge headers, and goes on after its blank line.
\<close>

theorem parseInput_spec_witness:
  "scanLines stdinCRLF = [''protocol=https'', ''host=dev.azure.com'', '''', ''host=ignored'']
   \<and> fst (fst (parseInput 0 asciiOnly (scanLines stdinCRLF) initial_world)) ''protocol'' = Some ''https''
   \<and> fst (fst (parseInput 0 asciiOnly (scanLines stdinCRLF) initial_world)) ''host''
       = Some ''dev.azure.com''
   \<and> snd (fst (parseInput 0 asciiOnly (scanLines stdinCRLF) initial_world)) = []
   \<and> wellFormedLines asciiOnly reqRepeated =
     [''protocol=http'', ''host = a=b'', ''wwwauth[]=Basic'', ''protocol=https'',
      ''wwwauth[]=Bearer x=y'']
   \<and> snd (fst (parseInput 0 asciiOnly reqRepeated initial_world)) = [''Basic'', ''Bearer x=y'']
   \<and> fst (fst (parseInput 0 asciiOnly reqRepeated initial_world)) ''protocol'' = Some ''https''
   \<and> fst (fst (parseInput 0 asciiOnly reqRepeated initial_world)) ''host '' = Some '' a=b''
   \<and> fst (fst (parseInput 0 asciiOnly reqRepeated initial_world)) ''host'' = None
   \<and> fst (fst (parseInput 0 asciiOnly reqRepeated initial_world)) ''wwwauth[]'' = None
   \<and> fst (parseInput 0 asciiOnly ([''protocol=https'', ''host=dev.azure.com''] @ ''  '' # [''host=ignored''])
          initial_world)
       = fst (parseInput 0 asciiOnly [''protocol=https'', ''host=dev.azure.com''] initial_world)
   \<and> fst (parseInput 0 asciiOnly ([''protocol=https''] @ ''garbage'' # [''host=dev.azure.com''])
          initial_world)
       = fst (parseInput 0 asciiOnly ([''protocol=https''] @ [''host=dev.azure.com'']) initial_world)"
proof -
  have short: "\<forall>l \<in> set (streamLines stdinCRLF). length l < MaxScanTokenSize"
    by (simp add: streamLines_stdinCRLF MaxScanTokenSize_def)
  have "fst (parseInput 0 asciiOnly (scanLines stdinCRLF) initial_world) =
          (specData (wellFormedLines asciiOnly (map dropCR (streamLines stdinCRLF))),
           specHeaders (wellFormedLines asciiOnly (map dropCR (streamLines stdinCRLF))))"
    using short parseInput_spec [where input = stdinCRLF and v = 0 and U = asciiOnly
        and w = initial_world]
    by blast
  then have "fst (parseInput 0 asciiOnly (scanLines stdinCRLF) initial_world) =
          (specData [''protocol=https'', ''host=dev.azure.com''],
           specHeaders [''protocol=https'', ''host=dev.azure.com''])"
    by (simp only: streamLines_stdinCRLF wellFormedLines_stdinCRLF)
  then have bytes:
    "fst (fst (parseInput 0 asciiOnly (scanLines stdinCRLF) initial_world)) ''protocol'' = Some ''https''
     \<and> fst (fst (parseInput 0 asciiOnly (scanLines stdinCRLF) initial_world)) ''host''
         = Some ''dev.azure.com''
     \<and> snd (fst (parseInput 0 asciiOnly (scanLines stdinCRLF) initial_world)) = []"
    by (simp add: specData_stdinCRLF)
  have "scanLines stdinCRLF =
          map dropCR (takeWhile (\<lambda>l. length l < MaxScanTokenSize) (streamLines stdinCRLF))"
    by (rule parseInput_spec [THEN conjunct2, THEN conjunct1])
  then have scanned:
    "scanLines stdinCRLF = [''protocol=https'', ''host=dev.azure.com'', '''', ''host=ignored'']"
    by (simp add: streamLines_stdinCRLF dropCR_def MaxScanTokenSize_def)
  have wf: "wellFormedLines asciiOnly reqRepeated =
     [''protocol=http'', ''host = a=b'', ''wwwauth[]=Basic'', ''protocol=https'',
      ''wwwauth[]=Bearer x=y'']"
    by code_simp
  have "specHeaders [''protocol=http'', ''host = a=b'', ''wwwauth[]=Basic'', ''protocol=https'',
      ''wwwauth[]=Bearer x=y''] = [''Basic'', ''Bearer x=y'']"
    by code_simp
  moreover have "specData [''protocol=http'', ''host = a=b'', ''wwwauth[]=Basic'',
      ''protocol=https'', ''wwwauth[]=Bearer x=y''] ''protocol'' = Some ''https''"
    by code_simp
  moreover have "specData [''protocol=http'', ''host = a=b'', ''wwwauth[]=Basic'',
      ''protocol=https'', ''wwwauth[]=Bearer x=y''] ''host '' = Some '' a=b''"
    by code_simp
  moreover have "specData [''protocol=http'', ''host = a=b'', ''wwwauth[]=Basic'',
      ''protocol=https'', ''wwwauth[]=Bearer x=y''] ''host'' = None"
    by code_simp
  moreover have "specData [''protocol=http'', ''host = a=b'', ''wwwauth[]=Basic'',
      ''protocol=https'', ''wwwauth[]=Bearer x=y''] ''wwwauth[]'' = None"
    by code_simp
  ultimately have parsed:
    "snd (fst (parseInput 0 asciiOnly reqRepeated initial_world)) = [''Basic'', ''Bearer x=y'']
     \<and> fst (fst (parseInput 0 asciiOnly reqRepeated initial_world)) ''protocol'' = Some ''https''
     \<and> fst (fst (parseInput 0 asciiOnly reqRepeated initial_world)) ''host '' = Some '' a=b''
     \<and> fst (fst (parseInput 0 asciiOnly reqRepeated initial_world)) ''host'' = None
     \<and> fst (fst (parseInput 0 asciiOnly reqRepeated initial_world)) ''wwwauth[]'' = None"
    using wf parseInput_spec [where lines = reqRepeated and v = 0 and U = asciiOnly
        and w = initial_world]
    by simp
  have nonblank: "\<forall>l \<in> set [''protocol=https'', ''host=dev.azure.com'']. TrimSpace asciiOnly l \<noteq> ''''"
    by code_simp
  have blank: "TrimSpace asciiOnly ''  '' = ''''"
    by code_simp
  have noeq: "CHR ''='' \<notin> set (TrimSpace asciiOnly ''garbage'') \<and> TrimSpace asciiOnly ''garbage'' \<noteq> ''''"
    by code_simp
  from nonblank blank
    parseInput_spec [where v = 0 and U = asciiOnly and w = initial_world
      and before = "[''protocol=https'', ''host=dev.azure.com'']"
      and blank = "''  ''" and rest = "[''host=ignored'']"]
  have stop: "fst (parseInput 0 asciiOnly
                ([''protocol=https'', ''host=dev.azure.com''] @ ''  '' # [''host=ignored''])
                initial_world)
       = fst (parseInput 0 asciiOnly [''protocol=https'', ''host=dev.azure.com''] initial_world)"
    by blast
  from noeq
    parseInput_spec [where v = 0 and U = asciiOnly and w = initial_world
      and before = "[''protocol=https'']" and rest = "[''host=dev.azure.com'']"
      and noeq = "''garbage''"]
  have skip: "fst (parseInput 0 asciiOnly ([''protocol=https''] @ ''garbage'' # [''host=dev.azure.com''])
          initial_world)
       = fst (parseInput 0 asciiOnly ([''protocol=https''] @ [''host=dev.azure.com'']) initial_world)"
    by blast
  from scanned bytes wf parsed stop skip show ?thesis by blast
qed

text \<open>
  The claim as the specification words it fails on a request with a long line. The input
  holds three lines, none of them blank, the second of 70004 bytes; read to its end it
  gives the host \<^verbatim>\<open>dev.azure.com\<close>. The scanner delivers the first line only, so the
  parser stops at the long line, which is neither a blank line nor the end of the input,
  and returns a request with no host.
\<close>

theorem parseInput_spec_counterexample:
  "streamLines stdinBig = [''protocol=https'', bigLine, ''host=dev.azure.com'']
   \<and> wellFormedLines asciiOnly (map dropCR (streamLines stdinBig))
       = [''protocol=https'', bigLine, ''host=dev.azure.com'']
   \<and> specData (wellFormedLines asciiOnly (map dropCR (streamLines stdinBig))) ''host''
       = Some ''dev.azure.com''
   \<and> scanLines stdinBig = [''protocol=https'']
   \<and> fst (fst (parseInput 0 asciiOnly (scanLines stdinBig) initial_world)) ''host'' = None"
  using streamLines_stdinBig wellFormedLines_stdinBig specData_stdinBig scanLines_stdinBig
    parseInput_protocol_only
  by simp

subsection \<open>The realm of the challenge headers\<close>

lemma takeWhile_value:
  "dquote \<notin> set v \<Longrightarrow> takeWhile (\<lambda>c. c \<noteq> dquote) (v @ dquote # x) = v"
  by (induction v) auto

lemma dropWhile_value:
  "dquote \<notin> set v \<Longrightarrow> dropWhile (\<lambda>c. c \<noteq> dquote) (v @ dquote # x) = dquote # x"
  by (induction v) auto

lemma realmAt_unique: "realmAt h n v \<Longrightarrow> realmAt h n v' \<Longrightarrow> v = v'"
proof -
  assume a: "realmAt h n v" and b: "realmAt h n v'"
  from a obtain x where x: "drop n h = realmOpen @ v @ dquote # x"
    by (auto simp: realmAt_def prefix_def)
  from b obtain y where y: "drop n h = realmOpen @ v' @ dquote # y"
    by (auto simp: realmAt_def prefix_def)
  from x y have eq: "v @ dquote # x = v' @ dquote # y"
    by simp
  have "takeWhile (\<lambda>c. c \<noteq> dquote) (v @ dquote # x) = v"
    using a by (simp add: realmAt_def takeWhile_value)
  moreover have "takeWhile (\<lambda>c. c \<noteq> dquote) (v' @ dquote # y) = v'"
    using b by (simp add: realmAt_def takeWhile_value)
  ultimately show "v = v'" using eq by simp
qed

lemma realmAt_Suc: "realmAt (c # s) (Suc n) v = realmAt s n v"
  by (simp add: realmAt_def)

lemma realmAt_Nil: "\<not> realmAt [] n v"
  by (simp add: realmAt_def realmOpen_def)

lemma matchRealmAt_Some:
  "matchRealmAt s = Some (m, v) \<longleftrightarrow> realmAt s 0 v \<and> m = realmOpen @ v @ [dquote]"
proof
  assume "matchRealmAt s = Some (m, v)"
  then have pre: "prefix realmOpen s"
    and v: "v = takeWhile (\<lambda>c. c \<noteq> dquote) (drop (length realmOpen) s)"
    and ne: "v \<noteq> []"
    and after: "dropWhile (\<lambda>c. c \<noteq> dquote) (drop (length realmOpen) s) \<noteq> []"
    and m: "m = realmOpen @ v @ [dquote]"
    by (auto simp: matchRealmAt_def Let_def HasPrefix_iff_prefix split: if_splits)
  let ?rest = "drop (length realmOpen) s"
  from pre have s: "s = realmOpen @ ?rest"
    by (auto simp: prefix_def)
  from after have "hd (dropWhile (\<lambda>c. c \<noteq> dquote) ?rest) = dquote"
    using hd_dropWhile [of "\<lambda>c. c \<noteq> dquote" ?rest] by simp
  with after obtain x where "dropWhile (\<lambda>c. c \<noteq> dquote) ?rest = dquote # x"
    by (cases "dropWhile (\<lambda>c. c \<noteq> dquote) ?rest") auto
  then have "?rest = v @ dquote # x"
    using takeWhile_dropWhile_id [of "\<lambda>c. c \<noteq> dquote" ?rest] v by simp
  with s have "s = realmOpen @ v @ [dquote] @ x"
    by simp
  then have "prefix (realmOpen @ v @ [dquote]) s"
    by (metis append.assoc prefixI)
  moreover have "dquote \<notin> set v"
    using v by (auto dest: set_takeWhileD)
  ultimately show "realmAt s 0 v \<and> m = realmOpen @ v @ [dquote]"
    using ne m by (simp add: realmAt_def)
next
  assume a: "realmAt s 0 v \<and> m = realmOpen @ v @ [dquote]"
  then obtain x where s: "s = realmOpen @ v @ dquote # x"
    by (auto simp: realmAt_def prefix_def)
  have nq: "dquote \<notin> set v" and ne: "v \<noteq> []"
    using a by (simp_all add: realmAt_def)
  have rest: "drop (length realmOpen) s = v @ dquote # x"
    using s by simp
  have tw: "takeWhile (\<lambda>c. c \<noteq> dquote) (v @ dquote # x) = v"
    using nq by (rule takeWhile_value)
  have dw: "dropWhile (\<lambda>c. c \<noteq> dquote) (v @ dquote # x) = dquote # x"
    using nq by (rule dropWhile_value)
  have "HasPrefix s realmOpen"
    using s by (simp add: HasPrefix_iff_prefix)
  then show "matchRealmAt s = Some (m, v)"
    using a ne by (simp add: matchRealmAt_def Let_def rest tw dw)
qed

lemma matchRealmAt_None: "matchRealmAt s = None \<longleftrightarrow> (\<forall>v. \<not> realmAt s 0 v)"
proof (cases "matchRealmAt s")
  case None
  then show ?thesis using matchRealmAt_Some [of s] by auto
next
  case (Some mv)
  then show ?thesis using matchRealmAt_Some [of s "fst mv" "snd mv"] by auto
qed

lemma FindStringSubmatch_none:
  "FindStringSubmatch s = [] \<longleftrightarrow> (\<forall>n v. \<not> realmAt s n v)"
proof (induction s)
  case Nil
  show ?case by (simp add: realmAt_Nil)
next
  case (Cons c s)
  show ?case
  proof (cases "matchRealmAt (c # s)")
    case (Some mv)
    then have "realmAt (c # s) 0 (snd mv)"
      using matchRealmAt_Some [of "c # s" "fst mv" "snd mv"] by simp
    then show ?thesis using Some by (auto split: prod.splits)
  next
    case None
    then have zero: "\<forall>v. \<not> realmAt (c # s) 0 v"
      by (simp add: matchRealmAt_None)
    have "(\<forall>n v. \<not> realmAt (c # s) n v) \<longleftrightarrow> (\<forall>n v. \<not> realmAt s n v)"
    proof
      assume "\<forall>n v. \<not> realmAt (c # s) n v"
      then show "\<forall>n v. \<not> realmAt s n v"
        using realmAt_Suc [of c s] by blast
    next
      assume r: "\<forall>n v. \<not> realmAt s n v"
      show "\<forall>n v. \<not> realmAt (c # s) n v"
      proof (intro allI)
        fix n v
        show "\<not> realmAt (c # s) n v"
          using zero r realmAt_Suc [of c s] by (cases n) auto
      qed
    qed
    then show ?thesis using None Cons.IH by simp
  qed
qed

lemma FindStringSubmatch_first:
  "FindStringSubmatch s \<noteq> [] \<Longrightarrow>
   \<exists>n v. FindStringSubmatch s = [realmOpen @ v @ [dquote], v] \<and> realmAt s n v
         \<and> (\<forall>n' < n. \<forall>v'. \<not> realmAt s n' v')"
proof (induction s)
  case Nil
  then show ?case by simp
next
  case (Cons c s)
  show ?case
  proof (cases "matchRealmAt (c # s)")
    case (Some mv)
    then have "realmAt (c # s) 0 (snd mv) \<and> fst mv = realmOpen @ snd mv @ [dquote]"
      using matchRealmAt_Some [of "c # s" "fst mv" "snd mv"] by simp
    moreover have "FindStringSubmatch (c # s) = [fst mv, snd mv]"
      using Some by (simp split: prod.splits)
    ultimately show ?thesis by auto
  next
    case None
    then have zero: "\<forall>v. \<not> realmAt (c # s) 0 v"
      by (simp add: matchRealmAt_None)
    from None Cons.prems have "FindStringSubmatch s \<noteq> []"
      by simp
    then obtain n v where f: "FindStringSubmatch s = [realmOpen @ v @ [dquote], v]"
      and at: "realmAt s n v" and least: "\<forall>n' < n. \<forall>v'. \<not> realmAt s n' v'"
      using Cons.IH by blast
    have "\<forall>n' < Suc n. \<forall>v'. \<not> realmAt (c # s) n' v'"
    proof (intro allI impI)
      fix n' v'
      assume "n' < Suc n"
      then show "\<not> realmAt (c # s) n' v'"
        using zero least realmAt_Suc [of c s] by (cases n') auto
    qed
    moreover have "realmAt (c # s) (Suc n) v"
      using at by (simp add: realmAt_Suc)
    moreover have "FindStringSubmatch (c # s) = [realmOpen @ v @ [dquote], v]"
      using None f by simp
    ultimately show ?thesis by blast
  qed
qed

lemma FindStringSubmatch_noneI:
  "\<forall>n v. \<not> realmAt s n v \<Longrightarrow> FindStringSubmatch s = []"
  by (simp add: FindStringSubmatch_none)

lemma extractRealm_none:
  "(\<forall>h \<in> set hs. \<forall>n v. \<not> realmAt h n v) \<Longrightarrow> extractRealm hs = ''''"
  by (induction hs) (simp_all add: FindStringSubmatch_noneI Let_def)

lemma extractRealm_some:
  "extractRealm hs \<noteq> '''' \<Longrightarrow>
   \<exists>pre h post n. hs = pre @ h # post \<and> (\<forall>h' \<in> set pre. \<forall>n v. \<not> realmAt h' n v)
     \<and> realmAt h n (extractRealm hs) \<and> (\<forall>n' < n. \<forall>v'. \<not> realmAt h n' v')"
proof (induction hs)
  case Nil
  then show ?case by simp
next
  case (Cons h hs)
  show ?case
  proof (cases "FindStringSubmatch h = []")
    case True
    then have eq: "extractRealm (h # hs) = extractRealm hs"
      by (simp add: Let_def)
    with Cons obtain pre h0 post n where
      "hs = pre @ h0 # post" "\<forall>h' \<in> set pre. \<forall>n v. \<not> realmAt h' n v"
      "realmAt h0 n (extractRealm hs)" "\<forall>n' < n. \<forall>v'. \<not> realmAt h0 n' v'"
      by auto
    then have "h # hs = (h # pre) @ h0 # post
        \<and> (\<forall>h' \<in> set (h # pre). \<forall>n v. \<not> realmAt h' n v)
        \<and> realmAt h0 n (extractRealm (h # hs)) \<and> (\<forall>n' < n. \<forall>v'. \<not> realmAt h0 n' v')"
      using True eq by (simp add: FindStringSubmatch_none)
    then show ?thesis by blast
  next
    case False
    then obtain n v where f: "FindStringSubmatch h = [realmOpen @ v @ [dquote], v]"
      and at: "realmAt h n v" and least: "\<forall>n' < n. \<forall>v'. \<not> realmAt h n' v'"
      using FindStringSubmatch_first by blast
    from f have "extractRealm (h # hs) = v"
      by (simp add: Let_def)
    with at least have "h # hs = [] @ h # hs
        \<and> (\<forall>h' \<in> set []. \<forall>n v. \<not> realmAt h' n v)
        \<and> realmAt h n (extractRealm (h # hs)) \<and> (\<forall>n' < n. \<forall>v'. \<not> realmAt h n' v')"
      by simp
    then show ?thesis by blast
  qed
qed

lemma extractRealm_first:
  assumes "hs = pre @ h # post" and "\<forall>h' \<in> set pre. \<forall>n v. \<not> realmAt h' n v"
    and "realmAt h n v" and "\<forall>n' < n. \<forall>v'. \<not> realmAt h n' v'"
  shows "extractRealm hs = v"
proof -
  have skip: "extractRealm (pre @ h # post) = extractRealm (h # post)"
    using assms(2) by (induction pre) (simp_all add: FindStringSubmatch_noneI Let_def)
  from assms(3) have "FindStringSubmatch h \<noteq> []"
    using FindStringSubmatch_none [of h] by blast
  then obtain n0 v0 where f: "FindStringSubmatch h = [realmOpen @ v0 @ [dquote], v0]"
    and at: "realmAt h n0 v0" and least: "\<forall>n' < n0. \<forall>v'. \<not> realmAt h n' v'"
    using FindStringSubmatch_first by blast
  have "n0 = n"
    using assms(3,4) at least by (meson linorder_neqE_nat)
  with at assms(3) have "v0 = v"
    by (auto dest: realmAt_unique)
  with f have "extractRealm (h # post) = v"
    by (simp add: Let_def)
  with skip assms(1) show ?thesis by simp
qed

lemma extractRealm_nonempty_iff:
  "extractRealm hs \<noteq> '''' \<longleftrightarrow> (\<exists>h \<in> set hs. \<exists>n v. realmAt h n v)"
proof
  assume "extractRealm hs \<noteq> ''''"
  then obtain pre h post n where "hs = pre @ h # post" "realmAt h n (extractRealm hs)"
    using extractRealm_some [of hs] by blast
  then show "\<exists>h \<in> set hs. \<exists>n v. realmAt h n v"
    by auto
next
  assume "\<exists>h \<in> set hs. \<exists>n v. realmAt h n v"
  then obtain pre h post where split: "hs = pre @ h # post"
    and hm: "\<exists>n v. realmAt h n v" and before: "\<forall>h' \<in> set pre. \<not> (\<exists>n v. realmAt h' n v)"
    using split_list_first_prop [of hs "\<lambda>h. \<exists>n v. realmAt h n v"] by blast
  from hm have "FindStringSubmatch h \<noteq> []"
    using FindStringSubmatch_none [of h] by blast
  then obtain n v where at: "realmAt h n v" and least: "\<forall>n' < n. \<forall>v'. \<not> realmAt h n' v'"
    using FindStringSubmatch_first by blast
  from split before at least have "extractRealm hs = v"
    using extractRealm_first [of hs pre h post n v] by blast
  moreover from at have "v \<noteq> []"
    by (simp add: realmAt_def)
  ultimately show "extractRealm hs \<noteq> ''''" by simp
qed

subsection \<open>The second attempt\<close>

lemma main_get_tokenResults:
  "tokenResults (calls (snd (snd (main_get v U git az lines)))) =
     (if \<not> inScope U git lines then []
      else case NewAzureCLICredential az (requestCredOpts U git lines) of
             Inl e \<Rightarrow> []
           | Inr c \<Rightarrow>
              (case cred_GetToken az c (tokenScope (requestResource U git lines)) of
                 (Inr t, c1) \<Rightarrow> [(tokenScope (requestResource U git lines), Inr t)]
               | (Inl e1, c1) \<Rightarrow>
                   if realmAvailable U git lines
                   then [(tokenScope (requestResource U git lines), Inl e1),
                         (tokenScope (extractRealm (requestHeaders U lines)),
                          fst (cred_GetToken az c1
                                 (tokenScope (extractRealm (requestHeaders U lines)))))]
                   else [(tokenScope (requestResource U git lines), Inl e1)]))"
proof (cases "inScope U git lines")
  case False
  then show ?thesis by (simp add: main_get_out_of_scope)
next
  case True
  show ?thesis
  proof (cases "NewAzureCLICredential az (requestCredOpts U git lines)")
    case (Inl e)
    then show ?thesis using True by (simp add: main_get_no_credential)
  next
    case (Inr c)
    obtain r1 c1 where
      r1: "cred_GetToken az c (tokenScope (requestResource U git lines)) = (r1, c1)"
      by (cases "cred_GetToken az c (tokenScope (requestResource U git lines))")
    show ?thesis
    proof (cases r1)
      case (Inr t1)
      then show ?thesis using True \<open>NewAzureCLICredential az _ = Inr c\<close> r1
        by (simp add: main_get_primary_ok)
    next
      case (Inl e1)
      show ?thesis
      proof (cases "realmAvailable U git lines")
        case False
        then show ?thesis using True \<open>NewAzureCLICredential az _ = Inr c\<close> r1 Inl
          by (simp add: main_get_primary_failed)
      next
        case avail: True
        obtain r2 c2 where
          r2: "cred_GetToken az c1 (tokenScope (extractRealm (requestHeaders U lines)))
                 = (r2, c2)"
          by (cases "cred_GetToken az c1 (tokenScope (extractRealm (requestHeaders U lines)))")
        show ?thesis
          using True \<open>NewAzureCLICredential az _ = Inr c\<close> r1 Inl avail r2
          by (simp add: main_get_retry)
      qed
    qed
  qed
qed

lemma second_attempt_iff:
  "length (tokenResults (calls (snd (snd (main_get v U git az lines))))) = 2 \<longleftrightarrow>
     (\<exists>scope e. tokenResults (calls (snd (snd (main_get v U git az lines)))) \<noteq> []
        \<and> hd (tokenResults (calls (snd (snd (main_get v U git az lines))))) = (scope, Inl e))
     \<and> realmAvailable U git lines"
  by (auto simp: main_get_tokenResults split: sum.splits prod.splits)

lemma attempts_at_most_two:
  "length (tokenResults (calls (snd (snd (main_get v U git az lines))))) \<le> 2"
  by (auto simp: main_get_tokenResults split: sum.splits prod.splits)

lemma second_attempt_scope:
  "length (tokenResults (calls (snd (snd (main_get v U git az lines))))) = 2 \<Longrightarrow>
   fst (tokenResults (calls (snd (snd (main_get v U git az lines)))) ! 1)
     = tokenScope (extractRealm (requestHeaders U lines))"
  by (auto simp: main_get_tokenResults split: sum.splits prod.splits if_splits)

text \<open>
  Claim C1. On every run, a second token request is made exactly when the first one
  failed, the configuration holds no resource override for the host, neither under
  \<open>protocol://host\<close> nor under the bare host, and some challenge header holds
  \<^verbatim>\<open>realm="value"\<close> (with a value that is not empty). The second request is for the
  value of the first match: that of the first header, in input order, that holds one,
  at its leftmost offset. When no header holds a match the extracted realm is empty and
  no second request is made; and none is made when an override exists, whether or not
  the first request failed. No run makes more than two requests.
\<close>

theorem realm_fallback:
  "(length (tokenResults (calls (snd (snd (main_get v U git az lines))))) = 2 \<longleftrightarrow>
      (\<exists>scope e. tokenResults (calls (snd (snd (main_get v U git az lines)))) \<noteq> []
         \<and> hd (tokenResults (calls (snd (snd (main_get v U git az lines))))) = (scope, Inl e))
      \<and> resourceOverrides (loadedConfig U git)
           (requestProtocol U lines @ ''://'' @ requestHost U lines) = None
      \<and> resourceOverrides (loadedConfig U git) (requestHost U lines) = None
      \<and> (\<exists>h \<in> set (requestHeaders U lines). \<exists>n val. realmAt h n val))
   \<and> length (tokenResults (calls (snd (snd (main_get v U git az lines))))) \<le> 2
   \<and> (length (tokenResults (calls (snd (snd (main_get v U git az lines))))) = 2 \<longrightarrow>
        (\<exists>pre h post n val.
           requestHeaders U lines = pre @ h # post
           \<and> (\<forall>h' \<in> set pre. \<forall>n' val'. \<not> realmAt h' n' val')
           \<and> realmAt h n val \<and> (\<forall>n' < n. \<forall>val'. \<not> realmAt h n' val')
           \<and> extractRealm (requestHeaders U lines) = val
           \<and> fst (tokenResults (calls (snd (snd (main_get v U git az lines)))) ! 1)
               = (if suffix ''/'' val then val else val @ ''/'') @ ''.default''))
   \<and> ((\<forall>h \<in> set (requestHeaders U lines). \<forall>n val. \<not> realmAt h n val) \<longrightarrow>
        extractRealm (requestHeaders U lines) = ''''
        \<and> length (tokenResults (calls (snd (snd (main_get v U git az lines))))) \<le> 1)
   \<and> (resourceOverrides (loadedConfig U git)
          (requestProtocol U lines @ ''://'' @ requestHost U lines) \<noteq> None
        \<or> resourceOverrides (loadedConfig U git) (requestHost U lines) \<noteq> None \<longrightarrow>
        length (tokenResults (calls (snd (snd (main_get v U git az lines))))) \<le> 1)"
proof -
  let ?T = "tokenResults (calls (snd (snd (main_get v U git az lines))))"
  let ?hs = "requestHeaders U lines"
  have avail: "realmAvailable U git lines \<longleftrightarrow>
      resourceOverrides (loadedConfig U git)
           (requestProtocol U lines @ ''://'' @ requestHost U lines) = None
      \<and> resourceOverrides (loadedConfig U git) (requestHost U lines) = None
      \<and> (\<exists>h \<in> set ?hs. \<exists>n val. realmAt h n val)"
    by (simp add: realmAvailable_def urlOf_def extractRealm_nonempty_iff)
  have two: "length ?T = 2 \<longleftrightarrow>
      (\<exists>scope e. ?T \<noteq> [] \<and> hd ?T = (scope, Inl e)) \<and> realmAvailable U git lines"
    by (rule second_attempt_iff)
  have most: "length ?T \<le> 2"
    by (rule attempts_at_most_two)
  have one: "\<not> realmAvailable U git lines \<Longrightarrow> length ?T \<le> 1"
    using two most by (cases "length ?T = 2") auto
  have first: "length ?T = 2 \<Longrightarrow>
        (\<exists>pre h post n val.
           ?hs = pre @ h # post
           \<and> (\<forall>h' \<in> set pre. \<forall>n' val'. \<not> realmAt h' n' val')
           \<and> realmAt h n val \<and> (\<forall>n' < n. \<forall>val'. \<not> realmAt h n' val')
           \<and> extractRealm ?hs = val
           \<and> fst (?T ! 1) = (if suffix ''/'' val then val else val @ ''/'') @ ''.default'')"
  proof -
    assume len: "length ?T = 2"
    then have "extractRealm ?hs \<noteq> ''''"
      using two by (simp add: realmAvailable_def)
    then obtain pre h post n where
      "?hs = pre @ h # post" "\<forall>h' \<in> set pre. \<forall>n v. \<not> realmAt h' n v"
      "realmAt h n (extractRealm ?hs)" "\<forall>n' < n. \<forall>v'. \<not> realmAt h n' v'"
      using extractRealm_some [of ?hs] by blast
    moreover have "fst (?T ! 1) = (if suffix ''/'' (extractRealm ?hs) then extractRealm ?hs
                                   else extractRealm ?hs @ ''/'') @ ''.default''"
      using second_attempt_scope [OF len] by (simp only: tokenScope_def)
    ultimately show ?thesis by blast
  qed
  have none: "(\<forall>h \<in> set ?hs. \<forall>n val. \<not> realmAt h n val) \<Longrightarrow>
        extractRealm ?hs = '''' \<and> length ?T \<le> 1"
    using one avail by (simp add: extractRealm_none)
  have override: "resourceOverrides (loadedConfig U git)
          (requestProtocol U lines @ ''://'' @ requestHost U lines) \<noteq> None
        \<or> resourceOverrides (loadedConfig U git) (requestHost U lines) \<noteq> None \<Longrightarrow>
        length ?T \<le> 1"
    using one avail by auto
  from two avail most first none override show ?thesis
    by blast
qed

text \<open>
  The header \<^verbatim>\<open>Bearer realm="https://example.org/foo"\<close> of the specification: with
  no override and a first request that fails, the second request is for the realm. With
  no header, or with an override, a failed first request is the only one.
\<close>

theorem realm_fallback_witness:
  "extractRealm (requestHeaders asciiOnly reqRealm) = ''https://example.org/foo''
   \<and> length (tokenResults (calls (snd (snd (main_get 0 asciiOnly noConfig azRealmOnly reqRealm)))))
       = 2
   \<and> fst (tokenResults (calls (snd (snd (main_get 0 asciiOnly noConfig azRealmOnly reqRealm)))) ! 1)
       = ''https://example.org/foo/.default''
   \<and> tokenResults (calls (snd (snd (main_get 0 asciiOnly noConfig azLoggedOut reqDevAzure))))
       = [(''https://dev.azure.com/.default'', Inl ''Please run az login to setup account'')]
   \<and> resourceOverrides (loadedConfig asciiOnly overrideConfig) ''https://dev.azure.com''
       = Some ''api://custom''
   \<and> hd (tokenResults (calls (snd (snd (main_get 0 asciiOnly overrideConfig azLoggedOut reqRealm)))))
       = (''api://custom/.default'', Inl ''Please run az login to setup account'')
   \<and> length (tokenResults (calls (snd (snd (main_get 0 asciiOnly overrideConfig azLoggedOut reqRealm)))))
       \<le> 1"
proof -
  let ?T = "tokenResults (calls (snd (snd (main_get 0 asciiOnly noConfig azRealmOnly reqRealm))))"
  have hs: "requestHeaders asciiOnly reqRealm
             = [''Bearer realm='' @ [dquote] @ ''https://example.org/foo'' @ [dquote]]"
    by code_simp
  have realm: "extractRealm (requestHeaders asciiOnly reqRealm) = ''https://example.org/foo''"
    by code_simp
  have "realmAt (''Bearer realm='' @ [dquote] @ ''https://example.org/foo'' @ [dquote]) 7
          ''https://example.org/foo''"
    by code_simp
  with hs have header: "\<exists>h \<in> set (requestHeaders asciiOnly reqRealm). \<exists>n val. realmAt h n val"
    by auto
  have failed: "?T \<noteq> [] \<and> hd ?T
      = (''https://dev.azure.com/.default'', Inl ''AADSTS500011: resource principal not found'')"
    by code_simp
  have url: "resourceOverrides (loadedConfig asciiOnly noConfig)
               (requestProtocol asciiOnly reqRealm @ ''://'' @ requestHost asciiOnly reqRealm) = None"
    by code_simp
  have bare: "resourceOverrides (loadedConfig asciiOnly noConfig) (requestHost asciiOnly reqRealm)
                = None"
    by code_simp
  note C = realm_fallback [of 0 asciiOnly noConfig azRealmOnly reqRealm]
  from C header failed url bare have two: "length ?T = 2"
    by blast
  with C obtain val where "extractRealm (requestHeaders asciiOnly reqRealm) = val"
    and "fst (?T ! 1) = (if suffix ''/'' val then val else val @ ''/'') @ ''.default''"
    by blast
  with realm have second: "fst (?T ! 1) = ''https://example.org/foo/.default''"
    by (simp add: suffix_def)
  have noheader: "tokenResults (calls (snd (snd (main_get 0 asciiOnly noConfig azLoggedOut reqDevAzure))))
       = [(''https://dev.azure.com/.default'', Inl ''Please run az login to setup account'')]"
    by code_simp
  have ov: "resourceOverrides (loadedConfig asciiOnly overrideConfig) ''https://dev.azure.com''
              = Some ''api://custom''"
    by code_simp
  have ovp: "requestProtocol asciiOnly reqRealm @ ''://'' @ requestHost asciiOnly reqRealm
              = ''https://dev.azure.com''"
    by code_simp
  have ovfail: "hd (tokenResults (calls (snd (snd (main_get 0 asciiOnly overrideConfig azLoggedOut reqRealm)))))
       = (''api://custom/.default'', Inl ''Please run az login to setup account'')"
    by code_simp
  from ov ovp realm_fallback [of 0 asciiOnly overrideConfig azLoggedOut reqRealm]
  have once: "length (tokenResults (calls (snd (snd (main_get 0 asciiOnly overrideConfig azLoggedOut reqRealm)))))
       \<le> 1"
    by simp
  from realm two second noheader ov ovfail once show ?thesis
    by blast
qed

end
